theory Spec2Isabelle
  imports Complex_Main
begin

section \<open>JavaScript values\<close>

text \<open>
  A JavaScript number is modelled by its mathematical value: \<open>Fin r\<close> is the number
  with the real value \<open>r\<close>, and the three special values that are not reals are
  constructors of their own. The two signed zeros are one value here. The operators
  below compute on \<open>Fin\<close> values exactly; where a number is read from a string it is
  rounded to the nearest double by \<open>toDouble\<close>.
\<close>

datatype number = NaN | PosInf | NegInf | Fin real

text \<open>
  The double nearest to a real number, ties going to the even significand. A double
  is an integer multiple of the quantum of its binade: \<open>2 ^ (e - 52)\<close> for a magnitude
  from \<open>2 ^ e\<close> up to \<open>2 ^ (e + 1)\<close>, the exponent \<open>e\<close> being at least -1022 (below
  \<open>2 ^ (- 1022)\<close> lie the subnormal numbers, multiples of \<open>2 ^ (- 1074)\<close>). A magnitude
  that rounds to \<open>2 ^ 1024\<close> or more is an infinity.
\<close>

definition round_even :: "real \<Rightarrow> int" where
  "round_even r =
     (let f = \<lfloor>r\<rfloor>; d = r - of_int f
      in if d < 1 / 2 then f else if 1 / 2 < d then f + 1 else if even f then f else f + 1)"

definition pow2 :: "int \<Rightarrow> real" where
  "pow2 k = (if 0 \<le> k then 2 ^ nat k else 1 / 2 ^ nat (- k))"

definition double_exponent :: "real \<Rightarrow> int" where
  "double_exponent x = max \<lfloor>log 2 \<bar>x\<bar>\<rfloor> (- 1022)"

definition toDouble :: "real \<Rightarrow> number" where
  "toDouble x =
     (if x = 0 then Fin 0
      else
        let q = pow2 (double_exponent x - 52);
            y = of_int (round_even (\<bar>x\<bar> / q)) * q
        in if 2 ^ 1024 \<le> y then (if x < 0 then NegInf else PosInf)
           else Fin (if x < 0 then - y else y))"

text \<open>The relational operators \<^verbatim>\<open><\<close> and \<^verbatim>\<open><=\<close>: any comparison with NaN is false.\<close>

fun js_lt :: "number \<Rightarrow> number \<Rightarrow> bool" where
  "js_lt NaN y = False"
| "js_lt x NaN = False"
| "js_lt (Fin a) (Fin b) = (a < b)"
| "js_lt x NegInf = False"
| "js_lt NegInf y = True"
| "js_lt PosInf y = False"
| "js_lt (Fin a) PosInf = True"

fun js_le :: "number \<Rightarrow> number \<Rightarrow> bool" where
  "js_le NaN y = False"
| "js_le x NaN = False"
| "js_le (Fin a) (Fin b) = (a \<le> b)"
| "js_le NegInf y = True"
| "js_le x NegInf = False"
| "js_le x PosInf = True"
| "js_le PosInf (Fin b) = False"

text \<open>The product \<^verbatim>\<open>x * y\<close>: NaN is absorbing, and infinity times zero is NaN.\<close>

fun js_mul :: "number \<Rightarrow> number \<Rightarrow> number" where
  "js_mul NaN y = NaN"
| "js_mul x NaN = NaN"
| "js_mul (Fin a) (Fin b) = Fin (a * b)"
| "js_mul (Fin a) PosInf = (if a = 0 then NaN else if 0 < a then PosInf else NegInf)"
| "js_mul (Fin a) NegInf = (if a = 0 then NaN else if 0 < a then NegInf else PosInf)"
| "js_mul PosInf (Fin b) = (if b = 0 then NaN else if 0 < b then PosInf else NegInf)"
| "js_mul NegInf (Fin b) = (if b = 0 then NaN else if 0 < b then NegInf else PosInf)"
| "js_mul PosInf PosInf = PosInf"
| "js_mul NegInf NegInf = PosInf"
| "js_mul PosInf NegInf = NegInf"
| "js_mul NegInf PosInf = NegInf"

text \<open>\<^verbatim>\<open>Math.sqrt\<close>: the square root of a negative number is NaN.\<close>

fun Math_sqrt :: "number \<Rightarrow> number" where
  "Math_sqrt NaN = NaN"
| "Math_sqrt PosInf = PosInf"
| "Math_sqrt NegInf = NaN"
| "Math_sqrt (Fin x) = (if x < 0 then NaN else Fin (sqrt x))"

text \<open>
  \<^verbatim>\<open>Math.atan2(y, x)\<close> on two reals is the angle of the point \<open>(x, y)\<close>, in
  \<open>(-pi, pi]\<close>; at the origin it is 0 (both zeros being positive in this model).
\<close>

definition atan2 :: "real \<Rightarrow> real \<Rightarrow> real" where
  "atan2 y x =
     (if 0 < x then arctan (y / x)
      else if x < 0 then (if 0 \<le> y then arctan (y / x) + pi else arctan (y / x) - pi)
      else if 0 < y then pi / 2
      else if y < 0 then - (pi / 2)
      else 0)"

fun Math_atan2 :: "number \<Rightarrow> number \<Rightarrow> number" where
  "Math_atan2 NaN x = NaN"
| "Math_atan2 y NaN = NaN"
| "Math_atan2 (Fin y) (Fin x) = Fin (atan2 y x)"
| "Math_atan2 (Fin y) PosInf = Fin 0"
| "Math_atan2 (Fin y) NegInf = Fin (if 0 \<le> y then pi else - pi)"
| "Math_atan2 PosInf (Fin x) = Fin (pi / 2)"
| "Math_atan2 NegInf (Fin x) = Fin (- (pi / 2))"
| "Math_atan2 PosInf PosInf = Fin (pi / 4)"
| "Math_atan2 PosInf NegInf = Fin (3 * pi / 4)"
| "Math_atan2 NegInf PosInf = Fin (- (pi / 4))"
| "Math_atan2 NegInf NegInf = Fin (- (3 * pi / 4))"

text \<open>
  A JSON value, as \<^verbatim>\<open>JSON.parse\<close> and \<^verbatim>\<open>response.json()\<close> produce it. An object
  is the list of its properties, each key once.
\<close>

datatype json =
    JNull
  | JBool bool
  | JNum number
  | JStr string
  | JArr "json list"
  | JObj "(string \<times> json) list"

section \<open>The frontend hook: \<^verbatim>\<open>frontend/src/hooks/useLiveRoute.js\<close>\<close>

subsection \<open>\<^verbatim>\<open>distanceMeters\<close>\<close>

text \<open>
  The haversine formula as the function writes it, evaluated in exact real
  arithmetic: the value the program approximates. The program itself computes in
  doubles, rounding after every operation and with the approximations of
  \<^verbatim>\<open>Math.sin\<close> and \<^verbatim>\<open>Math.cos\<close> that its engine provides, so the \<open>a\<close> it reaches can
  differ from the exact one in the last places.
\<close>

definition toRad :: "real \<Rightarrow> real" where
  "toRad d = d * pi / 180"

definition R :: real where
  "R = 6371000"

definition distanceMeters :: "real \<Rightarrow> real \<Rightarrow> real \<Rightarrow> real \<Rightarrow> number" where
  "distanceMeters lat1 lon1 lat2 lon2 =
     (let dLat = toRad (lat2 - lat1);
          dLon = toRad (lon2 - lon1);
          a = (sin (dLat / 2))\<^sup>2 + cos (toRad lat1) * cos (toRad lat2) * (sin (dLon / 2))\<^sup>2;
          c = js_mul (Fin 2) (Math_atan2 (Math_sqrt (Fin a)) (Math_sqrt (Fin (1 - a))))
      in js_mul (Fin R) c)"

subsection \<open>\<^verbatim>\<open>computeNearest\<close>\<close>

text \<open>
  A GeoJSON feature as the gateway builds it: a name and a point whose coordinates are
  the pair \<open>(lon, lat)\<close>. The feature collection may be missing (\<^verbatim>\<open>null\<close>), and so
  may its \<^verbatim>\<open>features\<close> property.
\<close>

record feature =
  name :: json
  coordinates :: "real \<times> real"

record geojson =
  features :: "feature list option"

record nearest =
  feature :: feature
  distance :: number

text \<open>The \<^verbatim>\<open>for ... of\<close> loop, with \<^verbatim>\<open>best\<close> as its accumulator.\<close>

fun computeNearest_loop :: "real \<Rightarrow> real \<Rightarrow> nearest option \<Rightarrow> feature list \<Rightarrow> nearest option" where
  "computeNearest_loop lat lon best [] = best"
| "computeNearest_loop lat lon best (feat # rest) =
     (let (lonS, latS) = coordinates feat;
          d = distanceMeters lat lon latS lonS
      in computeNearest_loop lat lon
           (case best of
              None \<Rightarrow> Some \<lparr>feature = feat, distance = d\<rparr>
            | Some b \<Rightarrow> if js_lt d (distance b) then Some \<lparr>feature = feat, distance = d\<rparr> else best)
           rest)"

definition computeNearest :: "real \<Rightarrow> real \<Rightarrow> geojson option \<Rightarrow> nearest option" where
  "computeNearest lat lon geo =
     (case geo of
        None \<Rightarrow> None
      | Some g \<Rightarrow>
          (case features g of
             None \<Rightarrow> None
           | Some fs \<Rightarrow> if length fs = 0 then None else computeNearest_loop lat lon None fs))"

subsection \<open>What does not depend on the arithmetic\<close>

text \<open>
  The last two statements of \<^verbatim>\<open>distanceMeters\<close>, as a function of the value that
  \<open>a\<close> has when they run. For an \<open>a\<close> above 1 the difference \<open>1 - a\<close> is negative, in
  double arithmetic as it is here, and what follows from its sign does not depend
  on rounding.
\<close>

definition distance_of_a :: "real \<Rightarrow> number" where
  "distance_of_a a =
     (let c = js_mul (Fin 2) (Math_atan2 (Math_sqrt (Fin a)) (Math_sqrt (Fin (1 - a))))
      in js_mul (Fin R) c)"

text \<open>
  The loop of \<^verbatim>\<open>computeNearest\<close> and the function itself over an arbitrary distance
  function \<open>dfun\<close>, which stands for \<^verbatim>\<open>distanceMeters\<close> as the program computes it;
  \<open>computeNearest\<close> above is the instance at the exact \<open>distanceMeters\<close>.
\<close>

fun computeNearest_loop_by ::
  "(real \<Rightarrow> real \<Rightarrow> real \<Rightarrow> real \<Rightarrow> number) \<Rightarrow> real \<Rightarrow> real \<Rightarrow> nearest option \<Rightarrow> feature list
    \<Rightarrow> nearest option" where
  "computeNearest_loop_by dfun lat lon best [] = best"
| "computeNearest_loop_by dfun lat lon best (feat # rest) =
     (let (lonS, latS) = coordinates feat;
          d = dfun lat lon latS lonS
      in computeNearest_loop_by dfun lat lon
           (case best of
              None \<Rightarrow> Some \<lparr>feature = feat, distance = d\<rparr>
            | Some b \<Rightarrow> if js_lt d (distance b) then Some \<lparr>feature = feat, distance = d\<rparr> else best)
           rest)"

definition computeNearest_by ::
  "(real \<Rightarrow> real \<Rightarrow> real \<Rightarrow> real \<Rightarrow> number) \<Rightarrow> real \<Rightarrow> real \<Rightarrow> geojson option \<Rightarrow> nearest option" where
  "computeNearest_by dfun lat lon geo =
     (case geo of
        None \<Rightarrow> None
      | Some g \<Rightarrow>
          (case features g of
             None \<Rightarrow> None
           | Some fs \<Rightarrow> if length fs = 0 then None else computeNearest_loop_by dfun lat lon None fs))"

subsection \<open>\<^verbatim>\<open>requestRoute\<close> and its throttle\<close>

text \<open>
  The part of the hook's state that \<^verbatim>\<open>requestRoute\<close> reads and writes:
  \<^verbatim>\<open>lastReqRef.current\<close> (a \<^verbatim>\<open>Date.now()\<close> reading in milliseconds, 0 at first),
  the current route and the status line.
\<close>

record 'c route_out =
  raw :: json
  coords :: 'c
  fromCache :: bool

record 'c hook =
  lastReqRef :: int
  route :: "'c route_out option"
  status :: string

definition useLiveRoute_init :: "'c hook" where
  "useLiveRoute_init = \<lparr>lastReqRef = 0, route = None, status = ''idle''\<rparr>"

text \<open>
  What the \<^verbatim>\<open>fetch\<close> of \<^verbatim>\<open>/api/route\<close> and the reading of its body give:
  a response with its \<^verbatim>\<open>ok\<close> flag and its JSON body, or a thrown exception.
\<close>

datatype api_reply = ApiResponse bool json | ApiThrows string

datatype route_error = RouteFetchError json json | FetchException string

fun truthy :: "json \<Rightarrow> bool" where
  "truthy JNull = False"
| "truthy (JBool b) = b"
| "truthy (JNum n) = (n \<noteq> NaN \<and> n \<noteq> Fin 0)"
| "truthy (JStr s) = (s \<noteq> [])"
| "truthy (JArr xs) = True"
| "truthy (JObj ps) = True"

text \<open>Reading the property \<open>k\<close> of a value: \<open>None\<close> is \<^verbatim>\<open>undefined\<close>.\<close>

fun get_prop :: "string \<Rightarrow> json \<Rightarrow> json option" where
  "get_prop k (JObj ps) = map_of ps k"
| "get_prop k j = None"

text \<open>
  \<^verbatim>\<open>requestRoute\<close>. Its result is \<open>Inr None\<close> for the \<^verbatim>\<open>null\<close> of a throttled
  call, \<open>Inr (Some out)\<close> for a route and \<open>Inl e\<close> for a thrown error (reading
  \<^verbatim>\<open>json.data\<close> of a body that is \<^verbatim>\<open>null\<close> throws a TypeError). The clock reading
  \<open>now\<close>, the reply of the gateway and \<^verbatim>\<open>convertOrsToLeafletCoords\<close> are parameters.
\<close>

definition requestRoute ::
  "int \<Rightarrow> (json \<Rightarrow> 'c) \<Rightarrow> int \<Rightarrow> (real \<times> real \<times> real \<times> real \<Rightarrow> api_reply) \<Rightarrow> 'c hook
     \<Rightarrow> real \<Rightarrow> real \<Rightarrow> real \<Rightarrow> real \<Rightarrow> (route_error + 'c route_out option) \<times> 'c hook" where
  "requestRoute throttleMs convertOrsToLeafletCoords now fetch h lat lon latS lonS =
     (if now - lastReqRef h < throttleMs then (Inr None, h)
      else
        let h1 = h\<lparr>lastReqRef := now, status := ''requesting-route''\<rparr> in
        (case fetch (lon, lat, lonS, latS) of
           ApiThrows msg \<Rightarrow> (Inl (FetchException msg), h1)
         | ApiResponse ok js \<Rightarrow>
             if \<not> ok then
               (Inl (RouteFetchError
                       (case get_prop ''error'' js of
                          Some e \<Rightarrow> if truthy e then e else JStr ''Route fetch failed''
                        | None \<Rightarrow> JStr ''Route fetch failed'')
                       js),
                h1)
             else if js = JNull then (Inl (FetchException ''TypeError''), h1)
             else
               let data = (case get_prop ''data'' js of
                             Some d \<Rightarrow> if truthy d then d else js
                           | None \<Rightarrow> js);
                   out = \<lparr>raw = js, coords = convertOrsToLeafletCoords data,
                          fromCache = (case get_prop ''fromCache'' js of Some b \<Rightarrow> truthy b | None \<Rightarrow> False)\<rparr>
               in (Inr (Some out), h1\<lparr>route := Some out, status := ''route-ready''\<rparr>)))"

text \<open>
  A watch session calls \<^verbatim>\<open>requestRoute\<close> once per position event, each call
  running to its end before the next. \<open>requests\<close> runs the calls of a list of events
  (the clock reading, what the gateway would reply, and the four coordinates) and
  collects the results.
\<close>

fun requests ::
  "int \<Rightarrow> (json \<Rightarrow> 'c) \<Rightarrow> 'c hook
     \<Rightarrow> (int \<times> (real \<times> real \<times> real \<times> real \<Rightarrow> api_reply) \<times> real \<times> real \<times> real \<times> real) list
     \<Rightarrow> (route_error + 'c route_out option) list \<times> 'c hook" where
  "requests throttleMs conv h [] = ([], h)"
| "requests throttleMs conv h ((now, fetch, lat, lon, latS, lonS) # evs) =
     (let (r, h1) = requestRoute throttleMs conv now fetch h lat lon latS lonS;
          (rs, h2) = requests throttleMs conv h1 evs
      in (r # rs, h2))"

text \<open>A call was permitted when it did not return the \<^verbatim>\<open>null\<close> of the throttle.\<close>

definition permitted :: "(route_error + 'c route_out option) \<Rightarrow> bool" where
  "permitted r = (r \<noteq> Inr None)"

section \<open>The gateway: \<^verbatim>\<open>backend/index.js\<close>\<close>

subsection \<open>Strings and \<^verbatim>\<open>Number\<close>\<close>

text \<open>
  A string is the list of its code units, each below 256 (the characters U+0000 to
  U+00FF); strings with other characters are outside this model. \<^verbatim>\<open>split\<close> with a
  one-character separator, \<^verbatim>\<open>trim\<close>, and the conversion \<^verbatim>\<open>Number(s)\<close> of a string (the
  \<open>StringToNumber\<close> of the language definition: the trimmed string is empty, or a
  signed decimal literal or \<^verbatim>\<open>Infinity\<close>, or an unsigned hexadecimal, octal or binary
  literal; anything else is NaN). The value of a literal is the double nearest to its
  mathematical value. The white space that \<^verbatim>\<open>trim\<close> and \<^verbatim>\<open>Number\<close> strip is, among these
  characters, the tab, the four line breaks and feeds, the space and the no-break
  space U+00A0.
\<close>

fun split_on :: "char \<Rightarrow> string \<Rightarrow> string list" where
  "split_on c [] = [[]]"
| "split_on c (x # xs) =
     (if x = c then [] # split_on c xs
      else (case split_on c xs of
              p # ps \<Rightarrow> (x # p) # ps
            | [] \<Rightarrow> [[x]]))"

definition is_ws :: "char \<Rightarrow> bool" where
  "is_ws c = (c \<in> set [CHR 0x09, CHR 0x0A, CHR 0x0B, CHR 0x0C, CHR 0x0D, CHR '' '', CHR 0xA0])"

definition trim :: "string \<Rightarrow> string" where
  "trim s = rev (dropWhile is_ws (rev (dropWhile is_ws s)))"

definition is_digit :: "char \<Rightarrow> bool" where
  "is_digit c = (c \<in> set ''0123456789'')"

text \<open>The value of a digit in a radix up to 16, if it is one.\<close>

definition digit_of :: "nat \<Rightarrow> char \<Rightarrow> nat option" where
  "digit_of radix c =
     (let n = of_char c :: nat;
          v = (if 48 \<le> n \<and> n \<le> 57 then Some (n - 48)
               else if 97 \<le> n \<and> n \<le> 102 then Some (n - 87)
               else if 65 \<le> n \<and> n \<le> 70 then Some (n - 55)
               else None)
      in case v of Some d \<Rightarrow> if d < radix then Some d else None | None \<Rightarrow> None)"

definition digits_val :: "nat \<Rightarrow> string \<Rightarrow> nat" where
  "digits_val radix ds = foldl (\<lambda>acc c. acc * radix + (case digit_of radix c of Some d \<Rightarrow> d | None \<Rightarrow> 0)) 0 ds"

definition parse_radix :: "nat \<Rightarrow> string \<Rightarrow> number" where
  "parse_radix radix ds =
     (if ds \<noteq> [] \<and> list_all (\<lambda>c. digit_of radix c \<noteq> None) ds
      then toDouble (real (digits_val radix ds)) else NaN)"

definition pow10 :: "int \<Rightarrow> real" where
  "pow10 k = (if 0 \<le> k then 10 ^ nat k else 1 / 10 ^ nat (- k))"

text \<open>The exponent part after \<^verbatim>\<open>e\<close> or \<^verbatim>\<open>E\<close>: an optional sign and at least one digit.\<close>

definition parse_exponent :: "string \<Rightarrow> int option" where
  "parse_exponent s =
     (let (neg, ds) = (case s of
                         c # r \<Rightarrow> if c = CHR ''-'' then (True, r)
                                  else if c = CHR ''+'' then (False, r) else (False, s)
                       | [] \<Rightarrow> (False, s))
      in if ds \<noteq> [] \<and> list_all is_digit ds
         then Some (if neg then - int (digits_val 10 ds) else int (digits_val 10 ds))
         else None)"

definition parse_unsigned :: "string \<Rightarrow> number" where
  "parse_unsigned s =
     (if s = ''Infinity'' then PosInf
      else
        let ip = takeWhile is_digit s;
            r1 = dropWhile is_digit s;
            (fp, r2) = (case r1 of
                          c # r \<Rightarrow> if c = CHR ''.'' then (takeWhile is_digit r, dropWhile is_digit r)
                                   else ([], r1)
                        | [] \<Rightarrow> ([], r1));
            mant = real (digits_val 10 ip) + real (digits_val 10 fp) / 10 ^ length fp
        in if ip = [] \<and> fp = [] then NaN
           else (case r2 of
                   [] \<Rightarrow> toDouble mant
                 | e # r3 \<Rightarrow>
                     if e = CHR ''e'' \<or> e = CHR ''E'' then
                       (case parse_exponent r3 of
                          Some k \<Rightarrow> toDouble (mant * pow10 k)
                        | None \<Rightarrow> NaN)
                     else NaN))"

fun js_neg :: "number \<Rightarrow> number" where
  "js_neg NaN = NaN"
| "js_neg PosInf = NegInf"
| "js_neg NegInf = PosInf"
| "js_neg (Fin x) = Fin (- x)"

definition StrNumericLiteral :: "string \<Rightarrow> number" where
  "StrNumericLiteral s =
     (case s of
        a # b # r \<Rightarrow>
          if a = CHR ''0'' \<and> (b = CHR ''x'' \<or> b = CHR ''X'') then parse_radix 16 r
          else if a = CHR ''0'' \<and> (b = CHR ''o'' \<or> b = CHR ''O'') then parse_radix 8 r
          else if a = CHR ''0'' \<and> (b = CHR ''b'' \<or> b = CHR ''B'') then parse_radix 2 r
          else if a = CHR ''+'' then parse_unsigned (b # r)
          else if a = CHR ''-'' then js_neg (parse_unsigned (b # r))
          else parse_unsigned s
      | _ \<Rightarrow> parse_unsigned s)"

definition Number :: "string \<Rightarrow> number" where
  "Number s = (let t = trim s in if t = [] then Fin 0 else StrNumericLiteral t)"

fun Number_isFinite :: "number \<Rightarrow> bool" where
  "Number_isFinite (Fin x) = True"
| "Number_isFinite n = False"

fun js_add :: "number \<Rightarrow> number \<Rightarrow> number" where
  "js_add NaN y = NaN"
| "js_add x NaN = NaN"
| "js_add (Fin a) (Fin b) = Fin (a + b)"
| "js_add PosInf NegInf = NaN"
| "js_add NegInf PosInf = NaN"
| "js_add PosInf y = PosInf"
| "js_add NegInf y = NegInf"
| "js_add (Fin a) y = y"

text \<open>
  \<^verbatim>\<open>encodeURIComponent\<close>: every character but the letters, the digits and
  \<^verbatim>\<open>- _ . ! ~ * ' ( )\<close> becomes, for each byte of its UTF-8 encoding, a percent sign
  and two hexadecimal digits. A character below U+0080 is one byte, and one from
  U+0080 to U+00FF is two.
\<close>

definition percent :: "nat \<Rightarrow> string" where
  "percent b = [CHR ''%'', ''0123456789ABCDEF'' ! (b div 16), ''0123456789ABCDEF'' ! (b mod 16)]"

definition unreserved :: "char \<Rightarrow> bool" where
  "unreserved c =
     (c \<in> set ''ABCDEFGHIJKLMNOPQRSTUVWXYZabcdefghijklmnopqrstuvwxyz0123456789-_.!~*()''
      \<or> c = CHR 0x27)"

definition encodeURIComponent :: "string \<Rightarrow> string" where
  "encodeURIComponent s =
     concat (map (\<lambda>c. let n = of_char c :: nat
                      in if unreserved c then [c]
                         else if n < 128 then percent n
                         else percent (192 + n div 64) @ percent (128 + n mod 64)) s)"

subsection \<open>Configuration and state\<close>

text \<open>The environment variables the gateway reads; \<open>None\<close> is an unset variable.\<close>

record env =
  ORS_API_KEY :: "string option"
  NODE_ENV :: "string option"
  ROUTE_CACHE_TTL_SECONDS_env :: "string option"

definition production :: "env \<Rightarrow> bool" where
  "production e = (NODE_ENV e = Some ''production'')"

text \<open>\<^verbatim>\<open>Number(process.env.ROUTE_CACHE_TTL_SECONDS) || 30\<close>: NaN and 0 give 30.\<close>

definition ROUTE_CACHE_TTL_SECONDS :: "env \<Rightarrow> number" where
  "ROUTE_CACHE_TTL_SECONDS e =
     (let n = (case ROUTE_CACHE_TTL_SECONDS_env e of None \<Rightarrow> NaN | Some s \<Rightarrow> Number s)
      in if n = NaN \<or> n = Fin 0 then Fin 30 else n)"

text \<open>
  Modelled from the spec: the route cache is an object of the \<^verbatim>\<open>node-cache\<close> package,
  which is not part of the repository. An entry holds the value and the instant
  at which it expires: the time of the \<^verbatim>\<open>set\<close> plus the time to live (0 for an entry
  that never expires). \<^verbatim>\<open>get\<close> returns the value of an entry that has not expired,
  and drops an expired one.
\<close>

record cache_entry =
  stored :: json
  expires :: number

type_synonym NodeCache = "string \<rightharpoonup> cache_entry"

definition expired :: "cache_entry \<Rightarrow> int \<Rightarrow> bool" where
  "expired e now = (expires e \<noteq> Fin 0 \<and> js_lt (expires e) (Fin (real_of_int now)))"

definition NodeCache_get :: "int \<Rightarrow> NodeCache \<Rightarrow> string \<Rightarrow> json option \<times> NodeCache" where
  "NodeCache_get now c key =
     (case c key of
        None \<Rightarrow> (None, c)
      | Some e \<Rightarrow> if expired e now then (None, c(key := None)) else (Some (stored e), c))"

definition NodeCache_set :: "number \<Rightarrow> int \<Rightarrow> NodeCache \<Rightarrow> string \<Rightarrow> json \<Rightarrow> NodeCache" where
  "NodeCache_set stdTTL now c key val =
     c(key \<mapsto> \<lparr>stored = val,
                expires = (if stdTTL = Fin 0 then Fin 0
                           else js_add (Fin (real_of_int now)) (js_mul stdTTL (Fin 1000)))\<rparr>)"

text \<open>
  Modelled from the spec: the rate limiter is built by the \<^verbatim>\<open>express-rate-limit\<close>
  package, which is not part of the repository, from the two constants below. It
  keeps, for each client address, the times of the requests it has seen; a request is
  admitted when fewer than \<open>max\<close> of them lie in the window that ends now, and every
  request is recorded.
\<close>

definition windowMs :: int where
  "windowMs = 15 * 60 * 1000"

definition max_requests :: nat where
  "max_requests = 60"

definition routeLimiter :: "int \<Rightarrow> string \<Rightarrow> (string \<Rightarrow> int list) \<Rightarrow> bool \<times> (string \<Rightarrow> int list)" where
  "routeLimiter now client hs =
     (let recent = filter (\<lambda>u. now - u < windowMs) (hs client)
      in (length recent < max_requests, hs(client := now # recent)))"

record gateway =
  shelters :: "feature list"
  routeCache :: NodeCache
  hits :: "string \<Rightarrow> int list"

definition gateway_init :: gateway where
  "gateway_init =
     \<lparr>shelters =
        [\<lparr>name = JStr ''City Hall Shelter'', coordinates = (77.5933, 12.9721)\<rparr>,
         \<lparr>name = JStr ''Community Center'', coordinates = (77.5980, 12.9755)\<rparr>,
         \<lparr>name = JStr ''VIT Shelter'', coordinates = (77.6000, 12.9680)\<rparr>],
      routeCache = Map.empty,
      hits = (\<lambda>c. [])\<rparr>"

subsection \<open>Requests and responses\<close>

text \<open>
  A query parameter is absent, a string, or (when it is repeated or written with
  brackets) an array or an object.
\<close>

datatype qval = QUndefined | QString string | QOther

datatype request =
    GetHealth
  | GetShelters
  | PostShelters "json option"
  | GetRoute qval qval

datatype body =
    HealthBody string
  | SheltersBody "feature list"
  | ShelterAdded "feature list"
  | ErrorBody string
  | ErrorDetails string string
  | RouteBody bool json
  | TooManyRequests
  | NotFound

record response =
  statusCode :: nat
  body :: body

fun is_route :: "request \<Rightarrow> bool" where
  "is_route (GetRoute start end) = True"
| "is_route r = False"

text \<open>What the \<^verbatim>\<open>fetch\<close> of the routing provider gives for a URL.\<close>

datatype fetch_result =
    FetchOk json
  | FetchNotOk nat string
  | FetchThrows string

text \<open>
  One request as the gateway sees it: the client address, the reading of the clock
  when the handler starts, the request, what the \<^verbatim>\<open>fetch\<close> of the provider would
  give, and the reading of the clock when that answer has been read.
\<close>

record event =
  client :: string
  clock :: int
  req :: request
  provider :: "string \<Rightarrow> fetch_result"
  clock_done :: int

subsection \<open>\<^verbatim>\<open>isValidLonLatPair\<close>\<close>

definition isValidLonLatPair :: "qval \<Rightarrow> bool" where
  "isValidLonLatPair pair =
     (case pair of
        QString s \<Rightarrow>
          if s = [] then False
          else
            let parts = map trim (split_on (CHR '','') s) in
            if length parts \<noteq> 2 then False
            else
              let lon = Number (parts ! 0);
                  lat = Number (parts ! 1)
              in if \<not> Number_isFinite lon \<or> \<not> Number_isFinite lat then False
                 else if js_lt lon (Fin (- 180)) \<or> js_lt (Fin 180) lon
                         \<or> js_lt lat (Fin (- 90)) \<or> js_lt (Fin 90) lat then False
                 else True
      | _ \<Rightarrow> False)"

subsection \<open>The handlers\<close>

text \<open>\<^verbatim>\<open>!x\<close> for a query parameter: absent, or the empty string.\<close>

fun not_q :: "qval \<Rightarrow> bool" where
  "not_q QUndefined = True"
| "not_q (QString s) = (s = [])"
| "not_q QOther = False"

definition cacheKey :: "string \<Rightarrow> string \<Rightarrow> string" where
  "cacheKey start end = start @ ''|'' @ end"

definition provider_url :: "string \<Rightarrow> string \<Rightarrow> string" where
  "provider_url start end =
     ''https://api.openrouteservice.org/v2/directions/foot-walking?start=''
       @ encodeURIComponent start @ ''&end='' @ encodeURIComponent end"

text \<open>
  The handler of \<^verbatim>\<open>GET /api/route\<close>, behind the rate limiter. It returns the
  response, the URLs it fetched from the provider, and the new state.
\<close>

definition route_handler :: "env \<Rightarrow> event \<Rightarrow> qval \<Rightarrow> qval \<Rightarrow> gateway \<Rightarrow> response \<times> string list \<times> gateway" where
  "route_handler e ev start end g =
     (if ORS_API_KEY e = None \<or> ORS_API_KEY e = Some [] then
        (\<lparr>statusCode = 500, body = ErrorBody ''ORS_API_KEY not configured on server.''\<rparr>, [], g)
      else if not_q start \<or> not_q end then
        (\<lparr>statusCode = 400,
          body = ErrorBody ''start and end required as query params in \"lon,lat\" format''\<rparr>, [], g)
      else if \<not> isValidLonLatPair start \<or> \<not> isValidLonLatPair end then
        (\<lparr>statusCode = 400,
          body = ErrorBody ''start and end must be valid lon,lat pairs (numbers). Example: start=77.5933,12.9721''\<rparr>,
         [], g)
      else
        (case (start, end) of
           (QString s, QString d) \<Rightarrow>
             let (cached, c1) = NodeCache_get (clock ev) (routeCache g) (cacheKey s d);
                 g1 = g\<lparr>routeCache := c1\<rparr>
             in if (case cached of Some x \<Rightarrow> truthy x | None \<Rightarrow> False) then
                  (\<lparr>statusCode = 200, body = RouteBody True (the cached)\<rparr>, [], g1)
                else
                  (case provider ev (provider_url s d) of
                     FetchNotOk st text \<Rightarrow>
                       (\<lparr>statusCode = st, body = ErrorDetails ''OpenRouteService error'' text\<rparr>,
                        [provider_url s d], g1)
                   | FetchOk data \<Rightarrow>
                       (\<lparr>statusCode = 200, body = RouteBody False data\<rparr>,
                        [provider_url s d],
                        g1\<lparr>routeCache :=
                             NodeCache_set (ROUTE_CACHE_TTL_SECONDS e) (clock_done ev) c1 (cacheKey s d) data\<rparr>)
                   | FetchThrows msg \<Rightarrow>
                       (\<lparr>statusCode = 500, body = ErrorDetails ''Failed to fetch route'' msg\<rparr>,
                        [provider_url s d], g1))
         | _ \<Rightarrow>
             (\<lparr>statusCode = 400,
               body = ErrorBody ''start and end must be valid lon,lat pairs (numbers). Example: start=77.5933,12.9721''\<rparr>,
              [], g)))"

text \<open>\<^verbatim>\<open>Number.isFinite\<close> of a property of the request body.\<close>

fun isFinite_prop :: "json option \<Rightarrow> bool" where
  "isFinite_prop (Some (JNum n)) = Number_isFinite n"
| "isFinite_prop x = False"

fun the_real :: "json option \<Rightarrow> real" where
  "the_real (Some (JNum (Fin x))) = x"
| "the_real x = 0"

text \<open>The handler of \<^verbatim>\<open>POST /api/shelters\<close>, which exists outside production only.\<close>

definition post_shelters_handler :: "json option \<Rightarrow> gateway \<Rightarrow> response \<times> gateway" where
  "post_shelters_handler req_body g =
     (let b = (case req_body of Some j \<Rightarrow> if truthy j then j else JObj [] | None \<Rightarrow> JObj []);
          name = get_prop ''name'' b;
          lon = get_prop ''lon'' b;
          lat = get_prop ''lat'' b
      in if (case name of Some n \<Rightarrow> \<not> truthy n | None \<Rightarrow> True)
            \<or> \<not> isFinite_prop lon \<or> \<not> isFinite_prop lat then
           (\<lparr>statusCode = 400,
             body = ErrorBody ''name, lon, lat required (lon and lat must be numbers)''\<rparr>, g)
         else
           let g1 = g\<lparr>shelters := shelters g @ [\<lparr>name = the name, coordinates = (the_real lon, the_real lat)\<rparr>]\<rparr>
           in (\<lparr>statusCode = 201, body = ShelterAdded (shelters g1)\<rparr>, g1))"

text \<open>
  The application: one request, routed to its handler. The route limiter runs before
  the route handler; a request it rejects never reaches the handler. A route that is
  not registered is answered with 404.
\<close>

definition handle :: "env \<Rightarrow> event \<Rightarrow> gateway \<Rightarrow> response \<times> string list \<times> gateway" where
  "handle e ev g =
     (case req ev of
        GetHealth \<Rightarrow>
          (\<lparr>statusCode = 200,
            body = HealthBody (case NODE_ENV e of
                                 Some s \<Rightarrow> if s = [] then ''development'' else s
                               | None \<Rightarrow> ''development'')\<rparr>, [], g)
      | GetShelters \<Rightarrow> (\<lparr>statusCode = 200, body = SheltersBody (shelters g)\<rparr>, [], g)
      | PostShelters b \<Rightarrow>
          if production e then (\<lparr>statusCode = 404, body = NotFound\<rparr>, [], g)
          else (let (r, g1) = post_shelters_handler b g in (r, [], g1))
      | GetRoute start end \<Rightarrow>
          let (admitted, hs) = routeLimiter (clock ev) (client ev) (hits g);
              g1 = g\<lparr>hits := hs\<rparr>
          in if \<not> admitted then (\<lparr>statusCode = 429, body = TooManyRequests\<rparr>, [], g1)
             else route_handler e ev start end g1)"

text \<open>A session of the gateway: the requests of a list, one after the other.\<close>

fun serve :: "env \<Rightarrow> gateway \<Rightarrow> event list \<Rightarrow> (response \<times> string list) list \<times> gateway" where
  "serve e g [] = ([], g)"
| "serve e g (ev # evs) =
     (let (r, calls, g1) = handle e ev g;
          (rs, g2) = serve e g1 evs
      in ((r, calls) # rs, g2))"

section \<open>Properties of the distance function\<close>

lemma haversine_a_bounds:
  fixes p q l :: real
  defines "a \<equiv> (sin ((q - p) / 2))\<^sup>2 + cos p * cos q * (sin (l / 2))\<^sup>2"
  shows "0 \<le> a" and "a \<le> 1"
proof -
  define u where "u = cos (p - q)"
  define v where "v = cos (p + q)"
  define s where "s = (sin (l / 2))\<^sup>2"
  have s0: "0 \<le> s" and s1: "s \<le> 1"
    by (simp_all add: s_def abs_square_le_1)
  have u1: "u \<le> 1" "- 1 \<le> u" and v1: "v \<le> 1" "- 1 \<le> v"
    by (simp_all add: u_def v_def)
  have "cos (2 * ((q - p) / 2)) = 1 - 2 * (sin ((q - p) / 2))\<^sup>2"
    by (rule cos_double_sin)
  moreover have "2 * ((q - p) / 2) = q - p"
    by simp
  ultimately have "cos (q - p) = 1 - 2 * (sin ((q - p) / 2))\<^sup>2"
    by metis
  then have hs: "(sin ((q - p) / 2))\<^sup>2 = (1 - cos (q - p)) / 2"
    by simp
  have "cos (q - p) = cos (p - q)"
    by (metis cos_minus minus_diff_eq)
  with hs have hs': "(sin ((q - p) / 2))\<^sup>2 = (1 - u) / 2"
    by (simp add: u_def)
  have cc: "cos p * cos q = (u + v) / 2"
    by (simp add: u_def v_def cos_times_cos)
  have a1: "a = ((1 - u) * (1 - s) + (1 + v) * s) / 2"
    unfolding a_def hs' cc s_def [symmetric] by (simp add: field_simps)
  have a2: "1 - a = ((1 + u) * (1 - s) + (1 - v) * s) / 2"
    unfolding a1 by (simp add: field_simps)
  have "0 \<le> (1 - u) * (1 - s)" and "0 \<le> (1 + v) * s"
    using s0 s1 u1 v1 by simp_all
  then have "0 \<le> (1 - u) * (1 - s) + (1 + v) * s"
    by (rule add_nonneg_nonneg)
  with a1 show "0 \<le> a" by simp
  have "0 \<le> (1 + u) * (1 - s)" and "0 \<le> (1 - v) * s"
    using s0 s1 u1 v1 by simp_all
  then have "0 \<le> (1 + u) * (1 - s) + (1 - v) * s"
    by (rule add_nonneg_nonneg)
  with a2 show "a \<le> 1" by simp
qed

lemma toRad_diff: "toRad (x - y) = toRad x - toRad y"
  by (simp only: toRad_def left_diff_distrib diff_divide_distrib)

lemma sin_toRad_swap: "sin (toRad (x - y) / 2) = - sin (toRad (y - x) / 2)"
proof -
  have "toRad (x - y) = - toRad (y - x)"
    by (simp only: toRad_diff minus_diff_eq)
  then have "toRad (x - y) / 2 = - (toRad (y - x) / 2)"
    by (simp only: minus_divide_left)
  then show ?thesis
    by (simp only: sin_minus)
qed

lemma atan2_nonneg: "0 \<le> y \<Longrightarrow> 0 \<le> x \<Longrightarrow> 0 \<le> atan2 y x"
  by (auto simp: atan2_def less_le)

lemma distanceMeters_Fin:
  "distanceMeters lat1 lon1 lat2 lon2 =
     Fin (R * (2 * atan2
       (sqrt ((sin (toRad (lat2 - lat1) / 2))\<^sup>2
          + cos (toRad lat1) * cos (toRad lat2) * (sin (toRad (lon2 - lon1) / 2))\<^sup>2))
       (sqrt (1 - ((sin (toRad (lat2 - lat1) / 2))\<^sup>2
          + cos (toRad lat1) * cos (toRad lat2) * (sin (toRad (lon2 - lon1) / 2))\<^sup>2)))))"
proof -
  have eq: "toRad (lat2 - lat1) = toRad lat2 - toRad lat1"
    by (rule toRad_diff)
  have "0 \<le> (sin ((toRad lat2 - toRad lat1) / 2))\<^sup>2
          + cos (toRad lat1) * cos (toRad lat2) * (sin (toRad (lon2 - lon1) / 2))\<^sup>2"
    and "(sin ((toRad lat2 - toRad lat1) / 2))\<^sup>2
          + cos (toRad lat1) * cos (toRad lat2) * (sin (toRad (lon2 - lon1) / 2))\<^sup>2 \<le> 1"
    by (rule haversine_a_bounds)+
  then show ?thesis
    unfolding distanceMeters_def Let_def eq by (simp add: not_less)
qed

text \<open>
  In exact arithmetic the distance is symmetric in its two points and is a number
  that is not negative, because the exact \<open>a\<close> lies between 0 and 1.
\<close>

lemma distanceMeters_exact_symmetric_nonneg:
  "distanceMeters lat1 lon1 lat2 lon2 = distanceMeters lat2 lon2 lat1 lon1
   \<and> (\<exists>d. distanceMeters lat1 lon1 lat2 lon2 = Fin d \<and> 0 \<le> d)"
proof
  have lat: "sin (toRad (lat1 - lat2) / 2) = - sin (toRad (lat2 - lat1) / 2)"
    by (rule sin_toRad_swap)
  have lon: "sin (toRad (lon1 - lon2) / 2) = - sin (toRad (lon2 - lon1) / 2)"
    by (rule sin_toRad_swap)
  show "distanceMeters lat1 lon1 lat2 lon2 = distanceMeters lat2 lon2 lat1 lon1"
    unfolding distanceMeters_def Let_def lat lon by (simp add: mult.commute)
next
  let ?a = "(sin (toRad (lat2 - lat1) / 2))\<^sup>2
          + cos (toRad lat1) * cos (toRad lat2) * (sin (toRad (lon2 - lon1) / 2))\<^sup>2"
  have "0 \<le> R * (2 * atan2 (sqrt ?a) (sqrt (1 - ?a)))"
  proof -
    have eq: "toRad (lat2 - lat1) = toRad lat2 - toRad lat1"
      by (rule toRad_diff)
    have "0 \<le> ?a" and "?a \<le> 1"
      unfolding eq by (rule haversine_a_bounds)+
    then have "0 \<le> atan2 (sqrt ?a) (sqrt (1 - ?a))"
      by (intro atan2_nonneg) simp_all
    then show ?thesis by (simp add: R_def)
  qed
  then show "\<exists>d. distanceMeters lat1 lon1 lat2 lon2 = Fin d \<and> 0 \<le> d"
    using distanceMeters_Fin by blast
qed

text \<open>
  \<open>distanceMeters\<close> ends with the two statements that \<open>distance_of_a\<close> holds.
\<close>

lemma distanceMeters_of_a:
  "distanceMeters lat1 lon1 lat2 lon2
     = distance_of_a ((sin (toRad (lat2 - lat1) / 2))\<^sup>2
         + cos (toRad lat1) * cos (toRad lat2) * (sin (toRad (lon2 - lon1) / 2))\<^sup>2)"
  by (simp only: distanceMeters_def distance_of_a_def Let_def)

text \<open>
  C7. The function computes \<open>a\<close> and returns \<open>distance_of_a a\<close>, without clamping
  \<open>a\<close>. Once \<open>a\<close> is above 1, as rounding makes it for points that are nearly
  antipodal, \<open>1 - a\<close> is negative, its square root is NaN, and so is the distance: a
  result that is not a non-negative number. At the points (0.08, 0) and (-0.08, 180)
  the doubles give \<open>a = 1 + 2 ^ (- 52)\<close>.
\<close>

theorem distanceMeters_NaN_above_one:
  "distanceMeters lat1 lon1 lat2 lon2
     = distance_of_a ((sin (toRad (lat2 - lat1) / 2))\<^sup>2
         + cos (toRad lat1) * cos (toRad lat2) * (sin (toRad (lon2 - lon1) / 2))\<^sup>2)
   \<and> (1 < a \<longrightarrow> distance_of_a a = NaN \<and> \<not> js_le (Fin 0) (distance_of_a a))"
proof
  show "distanceMeters lat1 lon1 lat2 lon2
     = distance_of_a ((sin (toRad (lat2 - lat1) / 2))\<^sup>2
         + cos (toRad lat1) * cos (toRad lat2) * (sin (toRad (lon2 - lon1) / 2))\<^sup>2)"
    by (rule distanceMeters_of_a)
  show "1 < a \<longrightarrow> distance_of_a a = NaN \<and> \<not> js_le (Fin 0) (distance_of_a a)"
    by (simp add: distance_of_a_def)
qed

theorem distanceMeters_NaN_above_one_witness:
  "distance_of_a (1 + 1 / 2 ^ 52) = NaN \<and> \<not> js_le (Fin 0) (distance_of_a (1 + 1 / 2 ^ 52))"
  using distanceMeters_NaN_above_one [where a = "1 + 1 / 2 ^ 52", THEN conjunct2] by simp

section \<open>Properties of the nearest-shelter selector\<close>

lemma distanceMeters_is_Fin: "\<exists>d. distanceMeters lat1 lon1 lat2 lon2 = Fin d"
  using distanceMeters_Fin by blast

lemma js_le_lt_Fin:
  "js_le (Fin a) (Fin b) = (a \<le> b)" "js_lt (Fin a) (Fin b) = (a < b)"
  by simp_all


lemma computeNearest_loop_by_Some:
  assumes "\<forall>f \<in> set fs. dfun lat lon (snd (coordinates f)) (fst (coordinates f)) = Fin (dr f)"
    and "distance b = Fin m"
  shows "(computeNearest_loop_by dfun lat lon (Some b) fs = Some b \<and> (\<forall>j<length fs. m \<le> dr (fs ! j)))
       \<or> (\<exists>i<length fs. computeNearest_loop_by dfun lat lon (Some b) fs
               = Some \<lparr>feature = fs ! i, distance = Fin (dr (fs ! i))\<rparr>
             \<and> dr (fs ! i) < m
             \<and> (\<forall>j<length fs. dr (fs ! i) \<le> dr (fs ! j))
             \<and> (\<forall>j<i. dr (fs ! i) < dr (fs ! j)))"
  using assms
proof (induction fs arbitrary: b m)
  case Nil
  then show ?case by simp
next
  case (Cons f rest)
  have df: "dfun lat lon (snd (coordinates f)) (fst (coordinates f)) = Fin (dr f)"
    using Cons.prems(1) by simp
  have dr: "\<forall>g \<in> set rest. dfun lat lon (snd (coordinates g)) (fst (coordinates g)) = Fin (dr g)"
    using Cons.prems(1) by simp
  show ?case
  proof (cases "dr f < m")
    case True
    let ?b' = "\<lparr>feature = f, distance = Fin (dr f)\<rparr>"
    have step: "computeNearest_loop_by dfun lat lon (Some b) (f # rest)
                  = computeNearest_loop_by dfun lat lon (Some ?b') rest"
      using True Cons.prems(2) df by (simp add: case_prod_unfold)
    have "distance ?b' = Fin (dr f)" by simp
    from Cons.IH [OF dr this] show ?thesis
    proof (elim disjE conjE exE)
      assume r: "computeNearest_loop_by dfun lat lon (Some ?b') rest = Some ?b'"
        and all: "\<forall>j<length rest. dr f \<le> dr (rest ! j)"
      have "\<forall>j<length (f # rest). dr f \<le> dr ((f # rest) ! j)"
        using all by (auto simp: nth_Cons split: nat.splits)
      then have "0 < length (f # rest) \<and> computeNearest_loop_by dfun lat lon (Some b) (f # rest)
               = Some \<lparr>feature = (f # rest) ! 0, distance = Fin (dr ((f # rest) ! 0))\<rparr>
             \<and> dr ((f # rest) ! 0) < m
             \<and> (\<forall>j<length (f # rest). dr ((f # rest) ! 0) \<le> dr ((f # rest) ! j))
             \<and> (\<forall>j<0. dr ((f # rest) ! 0) < dr ((f # rest) ! j))"
        using step r True by simp
      then show ?thesis by blast
    next
      fix i
      assume i: "i < length rest"
        and r: "computeNearest_loop_by dfun lat lon (Some ?b') rest
                  = Some \<lparr>feature = rest ! i, distance = Fin (dr (rest ! i))\<rparr>"
        and lt: "dr (rest ! i) < dr f"
        and all: "\<forall>j<length rest. dr (rest ! i) \<le> dr (rest ! j)"
        and first: "\<forall>j<i. dr (rest ! i) < dr (rest ! j)"
      have a: "\<forall>j<length (f # rest). dr ((f # rest) ! Suc i) \<le> dr ((f # rest) ! j)"
        using all lt by (auto simp: nth_Cons split: nat.splits)
      have b: "\<forall>j<Suc i. dr ((f # rest) ! Suc i) < dr ((f # rest) ! j)"
        using first lt by (auto simp: nth_Cons split: nat.splits)
      have "Suc i < length (f # rest) \<and> computeNearest_loop_by dfun lat lon (Some b) (f # rest)
               = Some \<lparr>feature = (f # rest) ! Suc i, distance = Fin (dr ((f # rest) ! Suc i))\<rparr>
             \<and> dr ((f # rest) ! Suc i) < m"
        using step r i lt True by simp
      with a b show ?thesis by blast
    qed
  next
    case False
    have step: "computeNearest_loop_by dfun lat lon (Some b) (f # rest)
                  = computeNearest_loop_by dfun lat lon (Some b) rest"
      using False Cons.prems(2) df by (simp add: case_prod_unfold)
    from Cons.IH [OF dr Cons.prems(2)] show ?thesis
    proof (elim disjE conjE exE)
      assume r: "computeNearest_loop_by dfun lat lon (Some b) rest = Some b"
        and all: "\<forall>j<length rest. m \<le> dr (rest ! j)"
      have "\<forall>j<length (f # rest). m \<le> dr ((f # rest) ! j)"
        using all False by (auto simp: nth_Cons split: nat.splits)
      then show ?thesis using step r by simp
    next
      fix i
      assume i: "i < length rest"
        and r: "computeNearest_loop_by dfun lat lon (Some b) rest
                  = Some \<lparr>feature = rest ! i, distance = Fin (dr (rest ! i))\<rparr>"
        and lt: "dr (rest ! i) < m"
        and all: "\<forall>j<length rest. dr (rest ! i) \<le> dr (rest ! j)"
        and first: "\<forall>j<i. dr (rest ! i) < dr (rest ! j)"
      have a: "\<forall>j<length (f # rest). dr ((f # rest) ! Suc i) \<le> dr ((f # rest) ! j)"
        using all lt False by (auto simp: nth_Cons split: nat.splits)
      have b: "\<forall>j<Suc i. dr ((f # rest) ! Suc i) < dr ((f # rest) ! j)"
        using first lt False by (auto simp: nth_Cons split: nat.splits)
      have "Suc i < length (f # rest) \<and> computeNearest_loop_by dfun lat lon (Some b) (f # rest)
               = Some \<lparr>feature = (f # rest) ! Suc i, distance = Fin (dr ((f # rest) ! Suc i))\<rparr>
             \<and> dr ((f # rest) ! Suc i) < m"
        using step r i lt by simp
      with a b show ?thesis by blast
    qed
  qed
qed

lemma computeNearest_loop_by_None:
  assumes "\<forall>f \<in> set fs. dfun lat lon (snd (coordinates f)) (fst (coordinates f)) = Fin (dr f)"
    and "fs \<noteq> []"
  shows "\<exists>i<length fs. computeNearest_loop_by dfun lat lon None fs
               = Some \<lparr>feature = fs ! i, distance = Fin (dr (fs ! i))\<rparr>
             \<and> (\<forall>j<length fs. dr (fs ! i) \<le> dr (fs ! j))
             \<and> (\<forall>j<i. dr (fs ! i) < dr (fs ! j))"
proof -
  from assms(2) obtain f rest where fs: "fs = f # rest"
    by (cases fs) auto
  let ?b = "\<lparr>feature = f, distance = Fin (dr f)\<rparr>"
  have df: "dfun lat lon (snd (coordinates f)) (fst (coordinates f)) = Fin (dr f)"
    using assms(1) by (simp add: fs)
  have dr: "\<forall>g \<in> set rest. dfun lat lon (snd (coordinates g)) (fst (coordinates g)) = Fin (dr g)"
    using assms(1) by (simp add: fs)
  have step: "computeNearest_loop_by dfun lat lon None fs
                = computeNearest_loop_by dfun lat lon (Some ?b) rest"
    unfolding fs using df by (simp add: case_prod_unfold)
  have "distance ?b = Fin (dr f)" by simp
  from computeNearest_loop_by_Some
    [where fs = rest and dfun = dfun and lat = lat and lon = lon and dr = dr, OF dr this]
  show ?thesis
  proof (elim disjE conjE exE)
    assume r: "computeNearest_loop_by dfun lat lon (Some ?b) rest = Some ?b"
      and all: "\<forall>j<length rest. dr f \<le> dr (rest ! j)"
    have "\<forall>j<length fs. dr (fs ! 0) \<le> dr (fs ! j)"
      unfolding fs using all by (auto simp: nth_Cons split: nat.splits)
    moreover have "0 < length fs \<and> computeNearest_loop_by dfun lat lon None fs
               = Some \<lparr>feature = fs ! 0, distance = Fin (dr (fs ! 0))\<rparr>"
      using step r by (simp add: fs)
    ultimately show ?thesis by blast
  next
    fix i
    assume i: "i < length rest"
      and r: "computeNearest_loop_by dfun lat lon (Some ?b) rest
                = Some \<lparr>feature = rest ! i, distance = Fin (dr (rest ! i))\<rparr>"
      and lt: "dr (rest ! i) < dr f"
      and all: "\<forall>j<length rest. dr (rest ! i) \<le> dr (rest ! j)"
      and first: "\<forall>j<i. dr (rest ! i) < dr (rest ! j)"
    have a: "\<forall>j<length fs. dr (fs ! Suc i) \<le> dr (fs ! j)"
      unfolding fs using all lt by (auto simp: nth_Cons split: nat.splits)
    have b: "\<forall>j<Suc i. dr (fs ! Suc i) < dr (fs ! j)"
      unfolding fs using first lt by (auto simp: nth_Cons split: nat.splits)
    have "Suc i < length fs \<and> computeNearest_loop_by dfun lat lon None fs
             = Some \<lparr>feature = fs ! Suc i, distance = Fin (dr (fs ! Suc i))\<rparr>"
      using step r i by (simp add: fs)
    with a b show ?thesis by blast
  qed
qed

text \<open>
  Whatever the arithmetic of the distance function: for a missing collection, a
  missing feature list and an empty one the selector returns no result; and for a
  non-empty list whose distances are all finite numbers it returns the feature at
  some position \<open>i\<close> together with the distance to it, no feature of the list is
  nearer, and every feature before position \<open>i\<close> is strictly farther.
\<close>

lemma computeNearest_by_minimum_first:
  "computeNearest_by dfun lat lon None = None
   \<and> computeNearest_by dfun lat lon (Some \<lparr>features = None\<rparr>) = None
   \<and> computeNearest_by dfun lat lon (Some \<lparr>features = Some []\<rparr>) = None
   \<and> (fs \<noteq> [] \<and> (\<forall>f \<in> set fs. \<exists>d. dfun lat lon (snd (coordinates f)) (fst (coordinates f)) = Fin d) \<longrightarrow>
        (\<exists>i<length fs.
           computeNearest_by dfun lat lon (Some \<lparr>features = Some fs\<rparr>)
             = Some \<lparr>feature = fs ! i,
                     distance = dfun lat lon (snd (coordinates (fs ! i))) (fst (coordinates (fs ! i)))\<rparr>
           \<and> (\<forall>j<length fs.
                 js_le (dfun lat lon (snd (coordinates (fs ! i))) (fst (coordinates (fs ! i))))
                       (dfun lat lon (snd (coordinates (fs ! j))) (fst (coordinates (fs ! j)))))
           \<and> (\<forall>j<i.
                 js_lt (dfun lat lon (snd (coordinates (fs ! i))) (fst (coordinates (fs ! i))))
                       (dfun lat lon (snd (coordinates (fs ! j))) (fst (coordinates (fs ! j)))))))"
proof (intro conjI impI)
  assume a: "fs \<noteq> [] \<and> (\<forall>f \<in> set fs. \<exists>d. dfun lat lon (snd (coordinates f)) (fst (coordinates f)) = Fin d)"
  then have ne: "fs \<noteq> []" by simp
  define dr where "dr f =
      (case dfun lat lon (snd (coordinates f)) (fst (coordinates f)) of
         Fin d \<Rightarrow> d | _ \<Rightarrow> 0)" for f :: feature
  have dr: "\<forall>f \<in> set fs. dfun lat lon (snd (coordinates f)) (fst (coordinates f)) = Fin (dr f)"
    using a by (auto simp: dr_def)
  have nth: "dfun lat lon (snd (coordinates (fs ! j))) (fst (coordinates (fs ! j))) = Fin (dr (fs ! j))"
    if "j < length fs" for j
    using that dr by simp
  have cn: "computeNearest_by dfun lat lon (Some \<lparr>features = Some fs\<rparr>)
              = computeNearest_loop_by dfun lat lon None fs"
    using ne by (simp add: computeNearest_by_def)
  from computeNearest_loop_by_None
    [where fs = fs and dfun = dfun and lat = lat and lon = lon and dr = dr, OF dr ne]
  obtain i where i: "i < length fs"
    and r: "computeNearest_loop_by dfun lat lon None fs
              = Some \<lparr>feature = fs ! i, distance = Fin (dr (fs ! i))\<rparr>"
    and all: "\<forall>j<length fs. dr (fs ! i) \<le> dr (fs ! j)"
    and first: "\<forall>j<i. dr (fs ! i) < dr (fs ! j)"
    by blast
  have "computeNearest_by dfun lat lon (Some \<lparr>features = Some fs\<rparr>)
             = Some \<lparr>feature = fs ! i,
                     distance = dfun lat lon (snd (coordinates (fs ! i))) (fst (coordinates (fs ! i)))\<rparr>"
    using r i by (simp add: cn nth)
  moreover have "\<forall>j<length fs.
                 js_le (dfun lat lon (snd (coordinates (fs ! i))) (fst (coordinates (fs ! i))))
                       (dfun lat lon (snd (coordinates (fs ! j))) (fst (coordinates (fs ! j))))"
    using all i by (simp add: nth)
  moreover have "\<forall>j<i.
                 js_lt (dfun lat lon (snd (coordinates (fs ! i))) (fst (coordinates (fs ! i))))
                       (dfun lat lon (snd (coordinates (fs ! j))) (fst (coordinates (fs ! j))))"
    using first i by (simp add: nth)
  ultimately show "\<exists>i<length fs.
           computeNearest_by dfun lat lon (Some \<lparr>features = Some fs\<rparr>)
             = Some \<lparr>feature = fs ! i,
                     distance = dfun lat lon (snd (coordinates (fs ! i))) (fst (coordinates (fs ! i)))\<rparr>
           \<and> (\<forall>j<length fs.
                 js_le (dfun lat lon (snd (coordinates (fs ! i))) (fst (coordinates (fs ! i))))
                       (dfun lat lon (snd (coordinates (fs ! j))) (fst (coordinates (fs ! j)))))
           \<and> (\<forall>j<i.
                 js_lt (dfun lat lon (snd (coordinates (fs ! i))) (fst (coordinates (fs ! i))))
                       (dfun lat lon (snd (coordinates (fs ! j))) (fst (coordinates (fs ! j)))))"
    using i by blast
qed (simp_all add: computeNearest_by_def)





section \<open>The scenario of two shelters\<close>

lemma sin_ge_half:
  fixes x :: real
  assumes "0 \<le> x" "x \<le> 1 / 2"
  shows "x / 2 \<le> sin x"
proof -
  have "sin 0 - 0 / 2 \<le> sin x - x / 2"
  proof (rule DERIV_nonneg_imp_nondecreasing [OF assms(1)])
    fix t :: real
    assume t: "0 \<le> t" "t \<le> x"
    have d: "((\<lambda>t. sin t - t / 2) has_real_derivative (cos t - 1 / 2)) (at t)"
      by (auto intro!: derivative_eq_intros)
    have "t \<le> pi / 3" using t assms pi_ge_two by simp
    then have "cos (pi / 3) \<le> cos t"
      using t by (intro cos_monotone_0_pi_le) simp_all
    then have "0 \<le> cos t - 1 / 2" by (simp add: cos_60)
    with d show "\<exists>y. ((\<lambda>t. sin t - t / 2) has_real_derivative y) (at t) \<and> 0 \<le> y"
      by blast
  qed
  then show ?thesis by simp
qed

lemma atan2_sqrt_mono:
  assumes "0 \<le> a" "a < b" "b \<le> 1"
  shows "atan2 (sqrt a) (sqrt (1 - a)) < atan2 (sqrt b) (sqrt (1 - b))"
proof -
  have xa: "0 < sqrt (1 - a)" using assms by simp
  have la: "atan2 (sqrt a) (sqrt (1 - a)) = arctan (sqrt a / sqrt (1 - a))"
    using xa by (simp add: atan2_def)
  show ?thesis
  proof (cases "b = 1")
    case True
    then have "atan2 (sqrt b) (sqrt (1 - b)) = pi / 2"
      by (simp add: atan2_def)
    then show ?thesis
      using la arctan_ubound [of "sqrt a / sqrt (1 - a)"] by simp
  next
    case False
    then have xb: "0 < sqrt (1 - b)" using assms by simp
    have lb: "atan2 (sqrt b) (sqrt (1 - b)) = arctan (sqrt b / sqrt (1 - b))"
      using xb by (simp add: atan2_def)
    have "sqrt a / sqrt (1 - a) < sqrt b / sqrt (1 - b)"
      using assms xb by (intro frac_less) simp_all
    then show ?thesis
      unfolding la lb by (simp add: arctan_less_iff)
  qed
qed

lemma hav_upper:
  fixes c u w :: real
  assumes "0 \<le> c" "c \<le> 1"
  shows "(sin u)\<^sup>2 + c * (sin w)\<^sup>2 \<le> u\<^sup>2 + w\<^sup>2"
proof -
  have "(sin u)\<^sup>2 \<le> u\<^sup>2" and w: "(sin w)\<^sup>2 \<le> w\<^sup>2"
    using abs_sin_x_le_abs_x by (simp_all add: abs_le_square_iff [symmetric])
  moreover have "c * (sin w)\<^sup>2 \<le> 1 * (sin w)\<^sup>2"
    using assms by (intro mult_right_mono) simp_all
  ultimately show ?thesis by simp
qed

lemma hav_lower:
  fixes c u w :: real
  assumes "0 \<le> c" "0 \<le> u" "u \<le> 1 / 2"
  shows "(u / 2)\<^sup>2 \<le> (sin u)\<^sup>2 + c * (sin w)\<^sup>2"
proof -
  have "u / 2 \<le> sin u" using assms by (intro sin_ge_half) simp_all
  then have "(u / 2)\<^sup>2 \<le> (sin u)\<^sup>2"
    using assms by (intro power_mono) simp_all
  moreover have "0 \<le> c * (sin w)\<^sup>2"
    using assms by simp
  ultimately show ?thesis by simp
qed

lemma cos_toRad_bounds:
  assumes "- 90 \<le> d" "d \<le> 90"
  shows "0 \<le> cos (toRad d)" "cos (toRad d) \<le> 1"
proof -
  have "(- 90) * pi \<le> d * pi" "d * pi \<le> 90 * pi"
    using assms by (intro mult_right_mono; simp)+
  then have "- (pi / 2) \<le> toRad d" "toRad d \<le> pi / 2"
    by (simp_all add: toRad_def)
  then show "0 \<le> cos (toRad d)" by (rule cos_ge_zero)
  show "cos (toRad d) \<le> 1" by simp
qed

lemma scenario_a_less:
  "(sin (toRad (12.9721 - 12.9730) / 2))\<^sup>2
     + cos (toRad 12.9730) * cos (toRad 12.9721) * (sin (toRad (77.5933 - 77.5940) / 2))\<^sup>2
   < (sin (toRad (12.9755 - 12.9730) / 2))\<^sup>2
     + cos (toRad 12.9730) * cos (toRad 12.9755) * (sin (toRad (77.5980 - 77.5940) / 2))\<^sup>2"
  (is "?aA < ?aB")
proof -
  have c0: "0 \<le> cos (toRad 12.9730)" "cos (toRad 12.9730) \<le> 1"
    by (rule cos_toRad_bounds; simp)+
  have cA: "0 \<le> cos (toRad 12.9721)" "cos (toRad 12.9721) \<le> 1"
    by (rule cos_toRad_bounds; simp)+
  have cB: "0 \<le> cos (toRad 12.9755)" "cos (toRad 12.9755) \<le> 1"
    by (rule cos_toRad_bounds; simp)+
  have ccA: "0 \<le> cos (toRad 12.9730) * cos (toRad 12.9721)"
            "cos (toRad 12.9730) * cos (toRad 12.9721) \<le> 1"
    using c0 cA by (simp_all add: mult_le_one)
  have ccB: "0 \<le> cos (toRad 12.9730) * cos (toRad 12.9755)"
    using c0 cB by simp
  have up: "?aA \<le> (toRad (12.9721 - 12.9730) / 2)\<^sup>2 + (toRad (77.5933 - 77.5940) / 2)\<^sup>2"
    using ccA by (rule hav_upper)
  have u0: "0 \<le> toRad (12.9755 - 12.9730) / 2"
    by (simp add: toRad_def)
  have u1: "toRad (12.9755 - 12.9730) / 2 \<le> 1 / 2"
    using pi_less_4 by (simp add: toRad_def)
  have lo: "(toRad (12.9755 - 12.9730) / 2 / 2)\<^sup>2 \<le> ?aB"
    using ccB u0 u1 by (rule hav_lower)
  have "(toRad (12.9721 - 12.9730) / 2)\<^sup>2 + (toRad (77.5933 - 77.5940) / 2)\<^sup>2
        = pi\<^sup>2 * (13 / 1296000000000)"
    by (simp add: toRad_def power2_eq_square field_simps)
  moreover have "(toRad (12.9755 - 12.9730) / 2 / 2)\<^sup>2 = pi\<^sup>2 * (1 / 82944000000)"
    by (simp add: toRad_def power2_eq_square field_simps)
  moreover have "pi\<^sup>2 * (13 / 1296000000000) < pi\<^sup>2 * (1 / 82944000000)"
    by (intro mult_strict_left_mono) simp_all
  ultimately show ?thesis using up lo by linarith
qed

lemma distanceMeters_less:
  assumes "(sin (toRad (latA - lat) / 2))\<^sup>2
             + cos (toRad lat) * cos (toRad latA) * (sin (toRad (lonA - lon) / 2))\<^sup>2
           < (sin (toRad (latB - lat) / 2))\<^sup>2
             + cos (toRad lat) * cos (toRad latB) * (sin (toRad (lonB - lon) / 2))\<^sup>2"
    (is "?aA < ?aB")
  shows "js_lt (distanceMeters lat lon latA lonA) (distanceMeters lat lon latB lonB)"
proof -
  have "0 \<le> ?aA" and "?aB \<le> 1"
    unfolding toRad_diff [of latA lat] toRad_diff [of latB lat] by (rule haversine_a_bounds)+
  with assms have "atan2 (sqrt ?aA) (sqrt (1 - ?aA)) < atan2 (sqrt ?aB) (sqrt (1 - ?aB))"
    by (intro atan2_sqrt_mono)
  then have "R * (2 * atan2 (sqrt ?aA) (sqrt (1 - ?aA))) < R * (2 * atan2 (sqrt ?aB) (sqrt (1 - ?aB)))"
    by (simp add: R_def)
  then show ?thesis
    by (simp only: distanceMeters_Fin js_lt.simps)
qed

text \<open>
  C8. With the shelters A at latitude 12.9721, longitude 77.5933 and B at latitude
  12.9755, longitude 77.5980, in this order, and the position at latitude 12.9730,
  longitude 77.5940, the selector returns A, and the distance to A is strictly smaller
  than the distance to B.
\<close>

theorem scenario_nearest_is_A:
  "computeNearest 12.9730 77.5940
     (Some \<lparr>features = Some [\<lparr>name = JStr ''A'', coordinates = (77.5933, 12.9721)\<rparr>,
                              \<lparr>name = JStr ''B'', coordinates = (77.5980, 12.9755)\<rparr>]\<rparr>)
     = Some \<lparr>feature = \<lparr>name = JStr ''A'', coordinates = (77.5933, 12.9721)\<rparr>,
             distance = distanceMeters 12.9730 77.5940 12.9721 77.5933\<rparr>
   \<and> js_lt (distanceMeters 12.9730 77.5940 12.9721 77.5933)
           (distanceMeters 12.9730 77.5940 12.9755 77.5980)"
proof -
  have lt: "js_lt (distanceMeters 12.9730 77.5940 12.9721 77.5933)
                  (distanceMeters 12.9730 77.5940 12.9755 77.5980)"
    by (rule distanceMeters_less) (rule scenario_a_less)
  obtain dA where dA: "distanceMeters 12.9730 77.5940 12.9721 77.5933 = Fin dA"
    using distanceMeters_is_Fin by blast
  obtain dB where dB: "distanceMeters 12.9730 77.5940 12.9755 77.5980 = Fin dB"
    using distanceMeters_is_Fin by blast
  from lt have "\<not> js_lt (distanceMeters 12.9730 77.5940 12.9755 77.5980)
                        (distanceMeters 12.9730 77.5940 12.9721 77.5933)"
    unfolding dA dB by simp
  with lt show ?thesis
    by (simp add: computeNearest_def)
qed

section \<open>Properties of the route-request throttle\<close>

lemma requestRoute_denied:
  "now - lastReqRef h < I \<Longrightarrow> requestRoute I conv now fetch h lat lon latS lonS = (Inr None, h)"
  by (simp add: requestRoute_def)

lemma requestRoute_granted:
  assumes "\<not> now - lastReqRef h < I"
  shows "fst (requestRoute I conv now fetch h lat lon latS lonS) \<noteq> Inr None"
    and "lastReqRef (snd (requestRoute I conv now fetch h lat lon latS lonS)) = now"
  using assms
  by (auto simp: requestRoute_def Let_def split: api_reply.splits option.splits)

lemma permitted_iff:
  "permitted (fst (requestRoute I conv now fetch h lat lon latS lonS)) \<longleftrightarrow> I \<le> now - lastReqRef h"
proof (cases "now - lastReqRef h < I")
  case True
  then show ?thesis by (simp add: requestRoute_denied permitted_def)
next
  case False
  then show ?thesis using requestRoute_granted(1) [OF False] by (simp add: permitted_def)
qed

lemma lastReqRef_after:
  "lastReqRef (snd (requestRoute I conv now fetch h lat lon latS lonS))
     = (if I \<le> now - lastReqRef h then now else lastReqRef h)"
proof (cases "now - lastReqRef h < I")
  case True
  then show ?thesis by (simp add: requestRoute_denied)
next
  case False
  then show ?thesis using requestRoute_granted(2) [OF False] by simp
qed

lemma requests_Cons:
  "requests I conv h ((now, fetch, lat, lon, latS, lonS) # evs) =
     (fst (requestRoute I conv now fetch h lat lon latS lonS)
        # fst (requests I conv (snd (requestRoute I conv now fetch h lat lon latS lonS)) evs),
      snd (requests I conv (snd (requestRoute I conv now fetch h lat lon latS lonS)) evs))"
  by (simp add: case_prod_unfold Let_def)

declare requests.simps(2) [simp del]

lemma length_requests: "length (fst (requests I conv h evs)) = length evs"
  by (induction evs arbitrary: h) (auto simp: requests_Cons)

lemma permitted_after_last:
  assumes "0 \<le> I"
  shows "j < length evs \<Longrightarrow> permitted (fst (requests I conv h evs) ! j)
           \<Longrightarrow> I \<le> fst (evs ! j) - lastReqRef h"
proof (induction evs arbitrary: h j)
  case Nil
  then show ?case by simp
next
  case (Cons ev evs)
  obtain now fetch lat lon latS lonS where ev: "ev = (now, fetch, lat, lon, latS, lonS)"
    by (cases ev) auto
  let ?h1 = "snd (requestRoute I conv now fetch h lat lon latS lonS)"
  show ?case
  proof (cases j)
    case 0
    with Cons.prems show ?thesis
      by (simp add: ev requests_Cons permitted_iff)
  next
    case (Suc k)
    with Cons.prems have "k < length evs" and "permitted (fst (requests I conv ?h1 evs) ! k)"
      by (simp_all add: ev requests_Cons)
    then have "I \<le> fst (evs ! k) - lastReqRef ?h1"
      by (rule Cons.IH)
    moreover have "lastReqRef h \<le> lastReqRef ?h1"
      using assms by (simp add: lastReqRef_after)
    ultimately show ?thesis
      using Suc by simp
  qed
qed

lemma permitted_apart:
  assumes "0 \<le> I"
  shows "i < j \<Longrightarrow> j < length evs \<Longrightarrow> permitted (fst (requests I conv h evs) ! i)
           \<Longrightarrow> permitted (fst (requests I conv h evs) ! j)
           \<Longrightarrow> I \<le> fst (evs ! j) - fst (evs ! i)"
proof (induction evs arbitrary: h i j)
  case Nil
  then show ?case by simp
next
  case (Cons ev evs)
  obtain now fetch lat lon latS lonS where ev: "ev = (now, fetch, lat, lon, latS, lonS)"
    by (cases ev) auto
  let ?h1 = "snd (requestRoute I conv now fetch h lat lon latS lonS)"
  from Cons.prems(1) obtain k where j: "j = Suc k"
    by (cases j) auto
  with Cons.prems have k: "k < length evs" and pk: "permitted (fst (requests I conv ?h1 evs) ! k)"
    by (simp_all add: ev requests_Cons)
  show ?case
  proof (cases i)
    case 0
    with Cons.prems(3) have "permitted (fst (requestRoute I conv now fetch h lat lon latS lonS))"
      by (simp add: ev requests_Cons)
    then have "lastReqRef ?h1 = now"
      by (simp add: lastReqRef_after permitted_iff)
    moreover have "I \<le> fst (evs ! k) - lastReqRef ?h1"
      using assms k pk by (rule permitted_after_last)
    ultimately show ?thesis
      using 0 j by (simp add: ev)
  next
    case (Suc i')
    with Cons.prems j have "i' < k" and "permitted (fst (requests I conv ?h1 evs) ! i')"
      by (simp_all add: ev requests_Cons)
    then have "I \<le> fst (evs ! k) - fst (evs ! i')"
      using k pk by (intro Cons.IH)
    then show ?thesis using Suc j by simp
  qed
qed

text \<open>
  C2, amended. A call of \<open>requestRoute\<close> at the clock reading \<open>now\<close> is permitted
  exactly when \<open>now\<close> minus the stored timestamp is at least the interval \<open>I\<close>; the
  stored timestamp becomes \<open>now\<close> on a permitted call and is unchanged otherwise; a
  call that is not permitted returns \<^verbatim>\<open>null\<close>, throws nothing and leaves the whole
  state as it was. The stored timestamp is 0 at first, so the first call is permitted
  exactly when its clock reading is at least \<open>I\<close>. In any run of calls, two permitted
  calls are at least \<open>I\<close> apart. With \<open>I = 4000\<close> and a first clock reading of at least
  4000, a second call 3999 ms later is not permitted and one 4001 ms later is.
\<close>

theorem throttle_minimum_interval:
  "(permitted (fst (requestRoute I conv now fetch h lat lon latS lonS)) \<longleftrightarrow> I \<le> now - lastReqRef h)
   \<and> lastReqRef (snd (requestRoute I conv now fetch h lat lon latS lonS))
         = (if I \<le> now - lastReqRef h then now else lastReqRef h)
   \<and> (\<not> I \<le> now - lastReqRef h \<longrightarrow>
         requestRoute I conv now fetch h lat lon latS lonS = (Inr None, h))
   \<and> lastReqRef (useLiveRoute_init :: 'c hook) = 0
   \<and> (\<forall>i j. i < j \<and> j < length evs
          \<and> permitted (fst (requests I conv h evs) ! i)
          \<and> permitted (fst (requests I conv h evs) ! j) \<longrightarrow>
            I \<le> \<bar>fst (evs ! j) - fst (evs ! i)\<bar>
            \<and> (0 \<le> I \<longrightarrow> I \<le> fst (evs ! j) - fst (evs ! i)))
   \<and> (4000 \<le> t \<longrightarrow>
         map permitted (fst (requests 4000 conv useLiveRoute_init
           [(t, f1, a1, b1, c1, d1), (t + 3999, f2, a2, b2, c2, d2)])) = [True, False]
         \<and> map permitted (fst (requests 4000 conv useLiveRoute_init
           [(t, f1, a1, b1, c1, d1), (t + 4001, f2, a2, b2, c2, d2)])) = [True, True])"
proof (intro conjI allI impI)
  show "permitted (fst (requestRoute I conv now fetch h lat lon latS lonS)) \<longleftrightarrow> I \<le> now - lastReqRef h"
    by (rule permitted_iff)
  show "lastReqRef (snd (requestRoute I conv now fetch h lat lon latS lonS))
         = (if I \<le> now - lastReqRef h then now else lastReqRef h)"
    by (rule lastReqRef_after)
  show "requestRoute I conv now fetch h lat lon latS lonS = (Inr None, h)"
    if "\<not> I \<le> now - lastReqRef h"
    using that by (intro requestRoute_denied) simp
  show "lastReqRef (useLiveRoute_init :: 'c hook) = 0"
    by (simp add: useLiveRoute_init_def)
next
  fix i j
  assume a: "i < j \<and> j < length evs
          \<and> permitted (fst (requests I conv h evs) ! i)
          \<and> permitted (fst (requests I conv h evs) ! j)"
  show "I \<le> fst (evs ! j) - fst (evs ! i)" if "0 \<le> I"
    using that a by (intro permitted_apart [of I i j evs conv h]) simp_all
  then show "I \<le> \<bar>fst (evs ! j) - fst (evs ! i)\<bar>"
    by (cases "0 \<le> I") simp_all
next
  assume t: "4000 \<le> t"
  show "map permitted (fst (requests 4000 conv useLiveRoute_init
           [(t, f1, a1, b1, c1, d1), (t + 3999, f2, a2, b2, c2, d2)])) = [True, False]"
    using t by (simp add: requests_Cons permitted_iff lastReqRef_after useLiveRoute_init_def)
  show "map permitted (fst (requests 4000 conv useLiveRoute_init
           [(t, f1, a1, b1, c1, d1), (t + 4001, f2, a2, b2, c2, d2)])) = [True, True]"
    using t by (simp add: requests_Cons permitted_iff lastReqRef_after useLiveRoute_init_def)
qed

theorem throttle_minimum_interval_witness:
  "map permitted (fst (requests 4000 (\<lambda>j. ()) useLiveRoute_init
      [(1762000000000, (\<lambda>q. ApiThrows ''offline''), 12.9730, 77.5940, 12.9721, 77.5933),
       (1762000003999, (\<lambda>q. ApiThrows ''offline''), 12.9730, 77.5940, 12.9721, 77.5933)]))
     = [True, False]
   \<and> map permitted (fst (requests 4000 (\<lambda>j. ()) useLiveRoute_init
      [(1762000000000, (\<lambda>q. ApiThrows ''offline''), 12.9730, 77.5940, 12.9721, 77.5933),
       (1762000004001, (\<lambda>q. ApiThrows ''offline''), 12.9730, 77.5940, 12.9721, 77.5933)]))
     = [True, True]"
proof -
  note th = throttle_minimum_interval [where t = 1762000000000 and conv = "\<lambda>j. ()"
      and ?f1.0 = "\<lambda>q. ApiThrows ''offline''" and ?f2.0 = "\<lambda>q. ApiThrows ''offline''"
      and ?a1.0 = "12.9730" and ?b1.0 = "77.5940" and ?c1.0 = "12.9721" and ?d1.0 = "77.5933"
      and ?a2.0 = "12.9730" and ?b2.0 = "77.5940" and ?c2.0 = "12.9721" and ?d2.0 = "77.5933"
      and I = 4000 and now = 1762000000000 and h = useLiveRoute_init and evs = "[]"
      and fetch = "\<lambda>q. ApiThrows ''offline''"
      and lat = "12.9730" and lon = "77.5940" and latS = "12.9721" and lonS = "77.5933"]
  have "(4000::int) \<le> 1762000000000" by simp
  from mp [OF th [THEN conjunct2, THEN conjunct2, THEN conjunct2, THEN conjunct2, THEN conjunct2] this]
  show ?thesis by simp
qed

text \<open>
  The first call is not always permitted. With the interval 4000 and a clock that
  starts at 0, calls at 0 and at 3999 are both refused; and at a clock reading of
  today the first call is refused when the interval is longer than the time since the
  epoch.
\<close>

theorem throttle_initial_counterexample:
  "map permitted (fst (requests 4000 (\<lambda>j. ()) useLiveRoute_init
      [(0, (\<lambda>q. ApiThrows ''offline''), 12.9730, 77.5940, 12.9721, 77.5933),
       (3999, (\<lambda>q. ApiThrows ''offline''), 12.9730, 77.5940, 12.9721, 77.5933)]))
     = [False, False]
   \<and> \<not> permitted (fst (requestRoute 2000000000000 (\<lambda>j. ()) 1762000000000 (\<lambda>q. ApiThrows ''offline'')
        useLiveRoute_init 12.9730 77.5940 12.9721 77.5933))"
  by (simp add: requests_Cons permitted_def requestRoute_def useLiveRoute_init_def)

section \<open>Rounding to a double\<close>

text \<open>
  Rounding does not cross an integer below \<open>2 ^ 53\<close>: such an integer is a double,
  and a real between two of them is rounded to a double between them.
\<close>

lemma round_even_le: "r \<le> of_int k \<Longrightarrow> round_even r \<le> k"
proof -
  assume r: "r \<le> of_int k"
  have f: "\<lfloor>r\<rfloor> \<le> k" using r by (simp add: floor_le_iff)
  show ?thesis
  proof (cases "r = of_int \<lfloor>r\<rfloor>")
    case True
    then have "r - of_int \<lfloor>r\<rfloor> = 0" by simp
    then show ?thesis using f by (simp add: round_even_def Let_def)
  next
    case False
    moreover have "of_int \<lfloor>r\<rfloor> \<le> r" by (rule of_int_floor_le)
    ultimately have "of_int \<lfloor>r\<rfloor> < r" by (simp only: less_le not_sym simp_thms)
    with r have "of_int \<lfloor>r\<rfloor> < (of_int k :: real)" by linarith
    then have "\<lfloor>r\<rfloor> < k" by simp
    then show ?thesis by (auto simp: round_even_def Let_def)
  qed
qed

lemma round_even_ge: "of_int k \<le> r \<Longrightarrow> k \<le> round_even r"
proof -
  assume "of_int k \<le> r"
  then have "k \<le> \<lfloor>r\<rfloor>" by (simp add: le_floor_iff)
  then show ?thesis by (auto simp: round_even_def Let_def)
qed

lemma pow2_pos: "0 < pow2 k"
  by (simp add: pow2_def)

lemma pow2_nonpos: "k \<le> 0 \<Longrightarrow> pow2 k = 1 / 2 ^ nat (- k)"
  by (auto simp: pow2_def)

lemma double_exponent_le:
  assumes "x \<noteq> 0" "\<bar>x\<bar> < 2 ^ 53"
  shows "double_exponent x \<le> 52"
proof -
  have "log 2 \<bar>x\<bar> < 53"
  proof -
    have "\<bar>x\<bar> < 2 powr 53" using assms(2) by simp
    then show ?thesis using assms(1) by (simp add: log_less_iff)
  qed
  then have "\<lfloor>log 2 \<bar>x\<bar>\<rfloor> < 53" by (simp add: floor_less_iff)
  then show ?thesis by (simp add: double_exponent_def)
qed

lemma toDouble_between:
  assumes x: "x \<noteq> 0" and lo: "of_int lo \<le> \<bar>x\<bar>" and hi: "\<bar>x\<bar> \<le> of_int hi" and h53: "hi < 2 ^ 53"
  shows "\<exists>y. toDouble x = Fin (if x < 0 then - y else y) \<and> of_int lo \<le> y \<and> y \<le> of_int hi"
proof -
  define N where "N = nat (52 - double_exponent x)"
  define y where "y = of_int (round_even (\<bar>x\<bar> / pow2 (double_exponent x - 52))) * pow2 (double_exponent x - 52)"
  have "\<bar>x\<bar> < 2 ^ 53"
  proof -
    have "(of_int hi :: real) < of_int (2 ^ 53)" using h53 by (simp only: of_int_less_iff)
    then show ?thesis using hi by simp
  qed
  then have e: "double_exponent x \<le> 52" using x by (intro double_exponent_le)
  then have q: "pow2 (double_exponent x - 52) = 1 / 2 ^ N"
    unfolding N_def by (subst pow2_nonpos) simp_all
  have r: "\<bar>x\<bar> / pow2 (double_exponent x - 52) = \<bar>x\<bar> * 2 ^ N"
    unfolding q by simp
  have "\<bar>x\<bar> * 2 ^ N \<le> of_int (hi * 2 ^ N)" using hi by simp
  then have up: "round_even (\<bar>x\<bar> * 2 ^ N) \<le> hi * 2 ^ N" by (rule round_even_le)
  have "of_int (lo * 2 ^ N) \<le> \<bar>x\<bar> * 2 ^ N" using lo by simp
  then have dn: "lo * 2 ^ N \<le> round_even (\<bar>x\<bar> * 2 ^ N)" by (rule round_even_ge)
  have y: "y = of_int (round_even (\<bar>x\<bar> * 2 ^ N)) / 2 ^ N"
    unfolding y_def r q by simp
  have "(of_int (round_even (\<bar>x\<bar> * 2 ^ N)) :: real) \<le> of_int (hi * 2 ^ N)"
    using up by (simp only: of_int_le_iff)
  then have yhi: "y \<le> of_int hi"
    unfolding y by (simp add: field_simps)
  have "(of_int (lo * 2 ^ N) :: real) \<le> of_int (round_even (\<bar>x\<bar> * 2 ^ N))"
    using dn by (simp only: of_int_le_iff)
  then have ylo: "of_int lo \<le> y"
    unfolding y by (simp add: field_simps)
  have "(of_int hi :: real) < of_int (2 ^ 53)" using h53 by (simp only: of_int_less_iff)
  then have "y < 2 ^ 53" using yhi by simp
  moreover have "(2::real) ^ 53 \<le> 2 ^ 1024" by (rule power_increasing) simp_all
  ultimately have "\<not> 2 ^ 1024 \<le> y" by linarith
  then have "toDouble x = Fin (if x < 0 then - y else y)"
    unfolding toDouble_def Let_def y_def [symmetric] using x by (simp only: if_False)
  with ylo yhi show ?thesis by blast
qed

lemma toDouble_int:
  assumes "x = of_int n" "\<bar>n\<bar> < 2 ^ 53"
  shows "toDouble x = Fin x"
proof (cases "x = 0")
  case True
  then show ?thesis by (simp add: toDouble_def)
next
  case False
  have a: "\<bar>x\<bar> = of_int \<bar>n\<bar>" using assms(1) by simp
  from toDouble_between [of x "\<bar>n\<bar>" "\<bar>n\<bar>", OF False _ _ assms(2)] a
  obtain y where "toDouble x = Fin (if x < 0 then - y else y)" and "y = \<bar>x\<bar>"
    by auto
  then show ?thesis by (simp add: abs_if)
qed


text \<open>
  The double of a real whose binade is known, and two literals that rounding moves:
  \<^verbatim>\<open>180.00000000000000001\<close> is the double 180, and \<^verbatim>\<open>1e-400\<close> is 0.
\<close>

lemma pow2_powr: "pow2 k = 2 powr (of_int k)"
  by (simp add: pow2_def powr_real_of_int field_simps)

lemma double_exponent_eq:
  assumes "pow2 e \<le> \<bar>x\<bar>" "\<bar>x\<bar> < pow2 (e + 1)" "- 1022 \<le> e"
  shows "double_exponent x = e"
proof -
  have pos: "0 < \<bar>x\<bar>"
    using assms(1) pow2_pos [of e] by linarith
  have "of_int e \<le> log 2 \<bar>x\<bar>"
    using assms(1) pos by (simp add: pow2_powr le_log_iff)
  moreover have "log 2 \<bar>x\<bar> < of_int e + 1"
    using assms(2) pos by (simp add: pow2_powr log_less_iff)
  ultimately have "\<lfloor>log 2 \<bar>x\<bar>\<rfloor> = e"
    by (simp add: floor_eq_iff)
  then show ?thesis
    using assms(3) by (simp add: double_exponent_def)
qed

lemma double_exponent_subnormal:
  assumes "x \<noteq> 0" "\<bar>x\<bar> < pow2 (- 1022)"
  shows "double_exponent x = - 1022"
proof -
  have "log 2 \<bar>x\<bar> < of_int (- 1022)"
    using assms by (simp add: pow2_powr log_less_iff)
  then have "\<lfloor>log 2 \<bar>x\<bar>\<rfloor> < - 1022"
    by (simp only: floor_less_iff)
  then show ?thesis
    by (simp add: double_exponent_def)
qed

lemma toDouble_binade:
  assumes "double_exponent x = e" "x \<noteq> 0"
    and "y = of_int (round_even (\<bar>x\<bar> / pow2 (e - 52))) * pow2 (e - 52)" "y < 2 ^ 1024"
  shows "toDouble x = Fin (if x < 0 then - y else y)"
  unfolding toDouble_def Let_def assms(1) assms(3) [symmetric]
  using assms(2,4) by (simp only: if_False not_le [symmetric] simp_thms)

lemma toDouble_above_180: "toDouble 180.00000000000000001 = Fin 180"
proof -
  have e: "double_exponent 180.00000000000000001 = 7"
    by (rule double_exponent_eq) (simp_all add: pow2_def)
  have "toDouble 180.00000000000000001
          = Fin (if (180.00000000000000001::real) < 0 then - 180 else 180)"
    using e by (rule toDouble_binade) (simp_all add: pow2_def round_even_def)
  then show ?thesis by simp
qed

lemma toDouble_underflow: "toDouble (1 / 10 ^ 400) = Fin 0"
proof -
  have e: "double_exponent (1 / 10 ^ 400) = - 1022"
    by (rule double_exponent_subnormal) (simp_all add: pow2_def)
  have "toDouble (1 / 10 ^ 400) = Fin (if (1 / 10 ^ 400 :: real) < 0 then - 0 else 0)"
    using e by (rule toDouble_binade) (simp_all add: pow2_def round_even_def)
  then show ?thesis by simp
qed

section \<open>Properties of the coordinate validator\<close>

lemmas num_defs = Number_def trim_def is_ws_def StrNumericLiteral_def parse_unsigned_def
  parse_exponent_def parse_radix_def pow10_def is_digit_def digits_val_def digit_of_def Let_def

lemma split_on_no_sep: "c \<notin> set s \<Longrightarrow> split_on c s = [s]"
  by (induction s) auto

lemma split_on_append: "c \<notin> set a \<Longrightarrow> split_on c (a @ c # b) = a # split_on c b"
  by (induction a) auto

lemma trim_blank:
  assumes "list_all is_ws s"
  shows "trim s = []"
proof -
  have d: "dropWhile is_ws s = []"
    using assms by (simp add: list_all_iff)
  show ?thesis
    unfolding trim_def d by simp
qed

lemma is_ws_not_comma: "is_ws c \<Longrightarrow> c \<noteq> CHR '',''"
  by (auto simp: is_ws_def)

lemma Number_Nil: "Number [] = Fin 0"
  by (simp add: Number_def trim_def)

lemma blank_pair_valid:
  assumes "list_all is_ws a" "list_all is_ws b"
  shows "isValidLonLatPair (QString (a @ '','' @ b))"
proof -
  have na: "CHR '','' \<notin> set a" and nb: "CHR '','' \<notin> set b"
    using assms is_ws_not_comma by (auto simp: list_all_iff)
  have "split_on (CHR '','') (a @ '','' @ b) = [a, b]"
    using na nb by (simp add: split_on_append split_on_no_sep)
  then show ?thesis
    using assms by (simp add: isValidLonLatPair_def trim_blank Number_Nil)
qed

text \<open>
  C9. \<open>Number\<close> of the empty string and of a blank string is 0, so the validator
  accepts \<^verbatim>\<open>","\<close> and every pair whose two components are blank; with a
  credential configured and nothing cached the route handler then calls the provider
  instead of answering 400.
\<close>

theorem blank_components_accepted:
  "Number '''' = Fin 0
   \<and> Number '' '' = Fin 0
   \<and> isValidLonLatPair (QString '','')
   \<and> (list_all is_ws a \<and> list_all is_ws b \<longrightarrow> isValidLonLatPair (QString (a @ '','' @ b)))
   \<and> (ORS_API_KEY e = Some k \<and> k \<noteq> [] \<and> routeCache g (cacheKey '','' '','') = None \<longrightarrow>
        fst (snd (route_handler e ev (QString '','') (QString '','') g)) = [provider_url '','' '','']
        \<and> (provider ev (provider_url '','' '','') = FetchOk data \<longrightarrow>
             fst (route_handler e ev (QString '','') (QString '','') g)
               = \<lparr>statusCode = 200, body = RouteBody False data\<rparr>))"
proof (intro conjI impI)
  show "Number '''' = Fin 0" by (rule Number_Nil)
  show "Number '' '' = Fin 0" by (simp add: num_defs)
  show v: "isValidLonLatPair (QString '','')"
    using blank_pair_valid [of "[]" "[]"] by simp
  show "isValidLonLatPair (QString (a @ '','' @ b))" if "list_all is_ws a \<and> list_all is_ws b"
    using that blank_pair_valid by blast
  assume k: "ORS_API_KEY e = Some k \<and> k \<noteq> [] \<and> routeCache g (cacheKey '','' '','') = None"
  show "fst (snd (route_handler e ev (QString '','') (QString '','') g)) = [provider_url '','' '','']"
    using k v by (simp add: route_handler_def NodeCache_get_def split: fetch_result.splits)
  show "fst (route_handler e ev (QString '','') (QString '','') g)
               = \<lparr>statusCode = 200, body = RouteBody False data\<rparr>"
    if "provider ev (provider_url '','' '','') = FetchOk data"
    using k v that by (simp add: route_handler_def NodeCache_get_def)
qed

theorem blank_components_accepted_witness:
  "isValidLonLatPair (QString '' ,'')
   \<and> fst (route_handler
         \<lparr>ORS_API_KEY = Some ''key'', NODE_ENV = None, ROUTE_CACHE_TTL_SECONDS_env = None\<rparr>
         \<lparr>client = ''10.0.0.1'', clock = 1762000000000, req = GetRoute (QString '','') (QString '',''),
           provider = (\<lambda>u. FetchOk (JObj [])), clock_done = 1762000000200\<rparr>
         (QString '','') (QString '','') gateway_init)
       = \<lparr>statusCode = 200, body = RouteBody False (JObj [])\<rparr>"
proof -
  note th = blank_components_accepted [where a = "'' ''" and b = "[]"
      and e = "\<lparr>ORS_API_KEY = Some ''key'', NODE_ENV = None, ROUTE_CACHE_TTL_SECONDS_env = None\<rparr>"
      and k = "''key''" and g = gateway_init and data = "JObj []"
      and ev = "\<lparr>client = ''10.0.0.1'', clock = 1762000000000, req = GetRoute (QString '','') (QString '',''),
           provider = (\<lambda>u. FetchOk (JObj [])), clock_done = 1762000000200\<rparr>"]
  have "list_all is_ws '' '' \<and> list_all is_ws []"
    by (simp add: is_ws_def)
  with th have "isValidLonLatPair (QString ('' '' @ '','' @ []))" by blast
  moreover from th have "fst (route_handler
         \<lparr>ORS_API_KEY = Some ''key'', NODE_ENV = None, ROUTE_CACHE_TTL_SECONDS_env = None\<rparr>
         \<lparr>client = ''10.0.0.1'', clock = 1762000000000, req = GetRoute (QString '','') (QString '',''),
           provider = (\<lambda>u. FetchOk (JObj [])), clock_done = 1762000000200\<rparr>
         (QString '','') (QString '','') gateway_init)
       = \<lparr>statusCode = 200, body = RouteBody False (JObj [])\<rparr>"
    by (simp add: gateway_init_def)
  ultimately show ?thesis by simp
qed

section \<open>Properties of the shelter list\<close>

lemma post_shelters_handler_201:
  assumes "map_of ps ''name'' = Some n" "truthy n"
    and "map_of ps ''lon'' = Some (JNum (Fin x))" "map_of ps ''lat'' = Some (JNum (Fin y))"
  shows "post_shelters_handler (Some (JObj ps)) g
     = (\<lparr>statusCode = 201, body = ShelterAdded (shelters g @ [\<lparr>name = n, coordinates = (x, y)\<rparr>])\<rparr>,
        g\<lparr>shelters := shelters g @ [\<lparr>name = n, coordinates = (x, y)\<rparr>]\<rparr>)"
  using assms by (simp add: post_shelters_handler_def)

lemma isFinite_prop_iff: "isFinite_prop j \<longleftrightarrow> (\<exists>x. j = Some (JNum (Fin x)))"
  by (cases j rule: isFinite_prop.cases) (auto elim: Number_isFinite.elims)

lemma post_shelters_handler_400:
  assumes "\<not> (\<exists>n x y. map_of ps ''name'' = Some n \<and> truthy n
              \<and> map_of ps ''lon'' = Some (JNum (Fin x)) \<and> map_of ps ''lat'' = Some (JNum (Fin y)))"
  shows "post_shelters_handler (Some (JObj ps)) g
     = (\<lparr>statusCode = 400, body = ErrorBody ''name, lon, lat required (lon and lat must be numbers)''\<rparr>, g)"
  using assms
  by (auto simp: post_shelters_handler_def isFinite_prop_iff Let_def split: option.splits)

lemma post_shelters_handler_not_object:
  assumes "\<forall>ps. b \<noteq> Some (JObj ps)"
  shows "post_shelters_handler b g
     = (\<lparr>statusCode = 400, body = ErrorBody ''name, lon, lat required (lon and lat must be numbers)''\<rparr>, g)"
proof (cases b)
  case None
  then show ?thesis by (simp add: post_shelters_handler_def)
next
  case (Some j)
  with assms show ?thesis
    by (cases j) (simp_all add: post_shelters_handler_def)
qed

text \<open>
  C10. Outside production \<^verbatim>\<open>POST /api/shelters\<close> is answered by its handler. When the
  body is an object whose \<^verbatim>\<open>name\<close> is truthy and whose \<^verbatim>\<open>lon\<close> and \<^verbatim>\<open>lat\<close> are
  finite numbers, whatever their values, the shelter is appended and the answer is 201
  with the new list; in every other case (the empty string is not truthy) the answer
  is 400 and nothing changes.
\<close>

theorem post_shelters_no_range_check:
  "\<not> production e \<and> req ev = PostShelters b \<longrightarrow>
     handle e ev g = (fst (post_shelters_handler b g), [], snd (post_shelters_handler b g))
     \<and> (b = Some (JObj ps) \<and> map_of ps ''name'' = Some n \<and> truthy n
          \<and> map_of ps ''lon'' = Some (JNum (Fin x)) \<and> map_of ps ''lat'' = Some (JNum (Fin y)) \<longrightarrow>
           post_shelters_handler b g
             = (\<lparr>statusCode = 201,
                 body = ShelterAdded (shelters g @ [\<lparr>name = n, coordinates = (x, y)\<rparr>])\<rparr>,
                g\<lparr>shelters := shelters g @ [\<lparr>name = n, coordinates = (x, y)\<rparr>]\<rparr>))
     \<and> (\<not> (\<exists>ps n x y. b = Some (JObj ps) \<and> map_of ps ''name'' = Some n \<and> truthy n
               \<and> map_of ps ''lon'' = Some (JNum (Fin x)) \<and> map_of ps ''lat'' = Some (JNum (Fin y))) \<longrightarrow>
           post_shelters_handler b g
             = (\<lparr>statusCode = 400,
                 body = ErrorBody ''name, lon, lat required (lon and lat must be numbers)''\<rparr>, g))
     \<and> \<not> truthy (JStr [])"
proof (intro impI conjI)
  assume a: "\<not> production e \<and> req ev = PostShelters b"
  then show "handle e ev g = (fst (post_shelters_handler b g), [], snd (post_shelters_handler b g))"
    by (simp add: handle_def case_prod_unfold Let_def)
  show "post_shelters_handler b g
             = (\<lparr>statusCode = 201,
                 body = ShelterAdded (shelters g @ [\<lparr>name = n, coordinates = (x, y)\<rparr>])\<rparr>,
                g\<lparr>shelters := shelters g @ [\<lparr>name = n, coordinates = (x, y)\<rparr>]\<rparr>)"
    if "b = Some (JObj ps) \<and> map_of ps ''name'' = Some n \<and> truthy n
          \<and> map_of ps ''lon'' = Some (JNum (Fin x)) \<and> map_of ps ''lat'' = Some (JNum (Fin y))"
    using that post_shelters_handler_201 by blast
  show "post_shelters_handler b g
             = (\<lparr>statusCode = 400,
                 body = ErrorBody ''name, lon, lat required (lon and lat must be numbers)''\<rparr>, g)"
    if n: "\<not> (\<exists>ps n x y. b = Some (JObj ps) \<and> map_of ps ''name'' = Some n \<and> truthy n
               \<and> map_of ps ''lon'' = Some (JNum (Fin x)) \<and> map_of ps ''lat'' = Some (JNum (Fin y)))"
  proof (cases "\<exists>ps. b = Some (JObj ps)")
    case True
    then obtain ps where "b = Some (JObj ps)" by blast
    with n show ?thesis
      using post_shelters_handler_400 [of ps g] by blast
  next
    case False
    then show ?thesis
      by (intro post_shelters_handler_not_object) simp
  qed
  show "\<not> truthy (JStr [])" by simp
qed

text \<open>A shelter at longitude 1000 and latitude -1000 is appended.\<close>

theorem post_shelters_no_range_check_witness:
  "handle \<lparr>ORS_API_KEY = None, NODE_ENV = None, ROUTE_CACHE_TTL_SECONDS_env = None\<rparr>
      \<lparr>client = ''10.0.0.1'', clock = 1762000000000,
        req = PostShelters (Some (JObj [(''name'', JStr ''Far away''), (''lon'', JNum (Fin 1000)),
                                         (''lat'', JNum (Fin (- 1000)))])),
        provider = (\<lambda>u. FetchThrows ''offline''), clock_done = 1762000000000\<rparr>
      gateway_init
     = (\<lparr>statusCode = 201,
         body = ShelterAdded (shelters gateway_init
                  @ [\<lparr>name = JStr ''Far away'', coordinates = (1000, - 1000)\<rparr>])\<rparr>,
        [],
        gateway_init\<lparr>shelters := shelters gateway_init
                  @ [\<lparr>name = JStr ''Far away'', coordinates = (1000, - 1000)\<rparr>]\<rparr>)"
proof -
  let ?e = "\<lparr>ORS_API_KEY = None, NODE_ENV = None, ROUTE_CACHE_TTL_SECONDS_env = None\<rparr>"
  let ?ps = "[(''name'', JStr ''Far away''), (''lon'', JNum (Fin 1000)), (''lat'', JNum (Fin (- 1000)))]"
  let ?ev = "\<lparr>client = ''10.0.0.1'', clock = 1762000000000, req = PostShelters (Some (JObj ?ps)),
        provider = (\<lambda>u. FetchThrows ''offline''), clock_done = 1762000000000\<rparr>"
  note th = post_shelters_no_range_check [where e = ?e and ev = ?ev and b = "Some (JObj ?ps)"
      and g = gateway_init and ps = ?ps and n = "JStr ''Far away''" and x = 1000 and y = "- 1000"]
  have p: "\<not> production ?e \<and> req ?ev = PostShelters (Some (JObj ?ps))"
    by (simp add: production_def)
  from mp [OF th p] show ?thesis
    by simp
qed

lemma route_handler_shelters:
  "shelters (snd (snd (route_handler e ev start end g))) = shelters g"
  by (auto simp: route_handler_def Let_def case_prod_unfold
      split: qval.splits fetch_result.splits)

lemma handle_shelters_changed:
  assumes "shelters (snd (snd (handle e ev g))) \<noteq> shelters g"
  shows "\<not> production e \<and> (\<exists>b. req ev = PostShelters b)
         \<and> statusCode (fst (handle e ev g)) = 201"
proof (cases "req ev")
  case GetHealth
  with assms show ?thesis by (simp add: handle_def)
next
  case GetShelters
  with assms show ?thesis by (simp add: handle_def)
next
  case (PostShelters b)
  with assms show ?thesis
    by (auto simp: handle_def post_shelters_handler_def Let_def case_prod_unfold split: if_splits)
next
  case (GetRoute s d)
  with assms show ?thesis
    by (auto simp: handle_def Let_def case_prod_unfold route_handler_shelters split: if_splits)
qed

lemma handle_post_201:
  assumes "\<not> production e" "req ev = PostShelters b" "statusCode (fst (handle e ev g)) = 201"
  shows "\<exists>f. shelters (snd (snd (handle e ev g))) = shelters g @ [f]"
  using assms
  by (auto simp: handle_def post_shelters_handler_def Let_def case_prod_unfold split: if_splits)

lemma handle_production_shelters:
  "production e \<Longrightarrow> shelters (snd (snd (handle e ev g))) = shelters g"
  using handle_shelters_changed by blast

lemma serve_Cons:
  "serve e g (ev # evs) =
     ((fst (handle e ev g), fst (snd (handle e ev g))) # fst (serve e (snd (snd (handle e ev g))) evs),
      snd (serve e (snd (snd (handle e ev g))) evs))"
  by (simp add: case_prod_unfold Let_def)

declare serve.simps(2) [simp del]

lemma length_serve: "length (fst (serve e g evs)) = length evs"
  by (induction evs arbitrary: g) (simp_all add: serve_Cons)

lemma serve_production_shelters:
  "production e \<Longrightarrow> shelters (snd (serve e g evs)) = shelters g"
  by (induction evs arbitrary: g) (simp_all add: serve_Cons handle_production_shelters)

lemma serve_production_list:
  assumes "production e"
  shows "i < length evs \<Longrightarrow> req (evs ! i) = GetShelters
           \<Longrightarrow> fst (serve e g evs) ! i = (\<lparr>statusCode = 200, body = SheltersBody (shelters g)\<rparr>, [])"
proof (induction evs arbitrary: g i)
  case Nil
  then show ?case by simp
next
  case (Cons ev evs)
  show ?case
  proof (cases i)
    case 0
    with Cons.prems show ?thesis
      by (simp add: serve_Cons handle_def)
  next
    case (Suc k)
    with Cons.prems have "k < length evs" "req (evs ! k) = GetShelters"
      by simp_all
    then have "fst (serve e (snd (snd (handle e ev g))) evs) ! k
         = (\<lparr>statusCode = 200, body = SheltersBody (shelters (snd (snd (handle e ev g))))\<rparr>, [])"
      by (rule Cons.IH)
    then show ?thesis
      using Suc assms by (simp add: serve_Cons handle_production_shelters)
  qed
qed

text \<open>
  C6, amended. In production no session changes the shelter list, and every
  \<^verbatim>\<open>GET /api/shelters\<close> of the session returns the list the session started with. In
  any mode, a request that changes the list is a \<^verbatim>\<open>POST /api/shelters\<close> outside
  production that was answered 201, and every such request appends one shelter.
\<close>

theorem shelters_static_in_production:
  "(production e \<longrightarrow>
      shelters (snd (serve e g evs)) = shelters g
      \<and> (\<forall>i. i < length evs \<and> req (evs ! i) = GetShelters \<longrightarrow>
            fst (serve e g evs) ! i = (\<lparr>statusCode = 200, body = SheltersBody (shelters g)\<rparr>, [])))
   \<and> (shelters (snd (snd (handle e ev g))) \<noteq> shelters g \<longrightarrow>
        \<not> production e \<and> (\<exists>b. req ev = PostShelters b) \<and> statusCode (fst (handle e ev g)) = 201)
   \<and> (\<not> production e \<and> req ev = PostShelters b \<and> statusCode (fst (handle e ev g)) = 201 \<longrightarrow>
        (\<exists>f. shelters (snd (snd (handle e ev g))) = shelters g @ [f]))"
  using serve_production_shelters serve_production_list handle_shelters_changed handle_post_201
  by blast

theorem shelters_static_in_production_witness:
  "fst (serve \<lparr>ORS_API_KEY = None, NODE_ENV = Some ''production'', ROUTE_CACHE_TTL_SECONDS_env = None\<rparr>
      gateway_init
      [\<lparr>client = ''10.0.0.1'', clock = 1762000000000,
        req = PostShelters (Some (JObj [(''name'', JStr ''Camp''), (''lon'', JNum (Fin 77.61)),
                                         (''lat'', JNum (Fin 12.98))])),
        provider = (\<lambda>u. FetchThrows ''offline''), clock_done = 1762000000000\<rparr>,
       \<lparr>client = ''10.0.0.1'', clock = 1762000001000, req = GetShelters,
        provider = (\<lambda>u. FetchThrows ''offline''), clock_done = 1762000001000\<rparr>]) ! 1
     = (\<lparr>statusCode = 200, body = SheltersBody (shelters gateway_init)\<rparr>, [])"
proof -
  let ?e = "\<lparr>ORS_API_KEY = None, NODE_ENV = Some ''production'', ROUTE_CACHE_TTL_SECONDS_env = None\<rparr>"
  let ?evs = "[\<lparr>client = ''10.0.0.1'', clock = 1762000000000,
        req = PostShelters (Some (JObj [(''name'', JStr ''Camp''), (''lon'', JNum (Fin 77.61)),
                                         (''lat'', JNum (Fin 12.98))])),
        provider = (\<lambda>u. FetchThrows ''offline''), clock_done = 1762000000000\<rparr>,
       \<lparr>client = ''10.0.0.1'', clock = 1762000001000, req = GetShelters,
        provider = (\<lambda>u. FetchThrows ''offline''), clock_done = 1762000001000\<rparr>]"
  have p: "production ?e" by (simp add: production_def)
  have i: "1 < length ?evs \<and> req (?evs ! 1) = GetShelters" by simp
  from shelters_static_in_production [of ?e gateway_init ?evs, THEN conjunct1, THEN mp, OF p,
      THEN conjunct2, THEN spec, THEN mp, OF i]
  show ?thesis .
qed

text \<open>
  Outside production the list returned before an accepted \<^verbatim>\<open>POST /api/shelters\<close>
  differs from the list returned after it.
\<close>

theorem shelters_mutable_counterexample:
  "map (body \<circ> fst)
     (fst (serve \<lparr>ORS_API_KEY = None, NODE_ENV = None, ROUTE_CACHE_TTL_SECONDS_env = None\<rparr>
        gateway_init
        [\<lparr>client = ''10.0.0.1'', clock = 1762000000000, req = GetShelters,
          provider = (\<lambda>u. FetchThrows ''offline''), clock_done = 1762000000000\<rparr>,
         \<lparr>client = ''10.0.0.1'', clock = 1762000001000,
          req = PostShelters (Some (JObj [(''name'', JStr ''Camp''), (''lon'', JNum (Fin 77.61)),
                                           (''lat'', JNum (Fin 12.98))])),
          provider = (\<lambda>u. FetchThrows ''offline''), clock_done = 1762000001000\<rparr>,
         \<lparr>client = ''10.0.0.1'', clock = 1762000002000, req = GetShelters,
          provider = (\<lambda>u. FetchThrows ''offline''), clock_done = 1762000002000\<rparr>]))
   = [SheltersBody (shelters gateway_init),
      ShelterAdded (shelters gateway_init @ [\<lparr>name = JStr ''Camp'', coordinates = (77.61, 12.98)\<rparr>]),
      SheltersBody (shelters gateway_init @ [\<lparr>name = JStr ''Camp'', coordinates = (77.61, 12.98)\<rparr>])]"
  by (simp add: serve_Cons handle_def production_def post_shelters_handler_def)

section \<open>Validation in the route handler\<close>

lemma js_range_Fin:
  "(\<not> (js_lt (Fin x) (Fin (- 180)) \<or> js_lt (Fin 180) (Fin x)
        \<or> js_lt (Fin y) (Fin (- 90)) \<or> js_lt (Fin 90) (Fin y)))
   \<longleftrightarrow> (- 180 \<le> x \<and> x \<le> 180 \<and> - 90 \<le> y \<and> y \<le> 90)"
  by auto

lemma Number_isFinite_iff: "Number_isFinite n \<longleftrightarrow> (\<exists>x. n = Fin x)"
  by (cases n) simp_all

lemma length_two: "length xs = 2 \<Longrightarrow> \<exists>a b. xs = [a, b]"
proof -
  assume l: "length xs = 2"
  then obtain a ys where xs: "xs = a # ys"
    by (cases xs) auto
  with l have "length ys = 1" by simp
  then obtain b where "ys = [b]"
    by (cases ys) auto
  with xs show ?thesis by blast
qed

lemma valid_numbers_iff:
  "(Number_isFinite m \<and> Number_isFinite n
    \<and> \<not> (js_lt m (Fin (- 180)) \<or> js_lt (Fin 180) m \<or> js_lt n (Fin (- 90)) \<or> js_lt (Fin 90) n))
   \<longleftrightarrow> (\<exists>x y. m = Fin x \<and> n = Fin y \<and> - 180 \<le> x \<and> x \<le> 180 \<and> - 90 \<le> y \<and> y \<le> 90)"
  by (cases m; cases n) auto

lemma isValidLonLatPair_iff:
  "isValidLonLatPair (QString s) \<longleftrightarrow>
     s \<noteq> [] \<and> (\<exists>a b x y. map trim (split_on (CHR '','') s) = [a, b]
                  \<and> Number a = Fin x \<and> Number b = Fin y
                  \<and> - 180 \<le> x \<and> x \<le> 180 \<and> - 90 \<le> y \<and> y \<le> 90)"
proof (cases "s = []")
  case True
  then show ?thesis by (simp add: isValidLonLatPair_def)
next
  case False
  show ?thesis
  proof (cases "length (split_on (CHR '','') s) = 2")
    case l: False
    then have "\<not> isValidLonLatPair (QString s)"
      by (simp add: isValidLonLatPair_def)
    moreover have "map trim (split_on (CHR '','') s) \<noteq> [a, b]" for a b
    proof
      assume "map trim (split_on (CHR '','') s) = [a, b]"
      then have "length (map trim (split_on (CHR '','') s)) = 2" by simp
      with l show False by simp
    qed
    ultimately show ?thesis by simp
  next
    case True
    then obtain p q where pq: "split_on (CHR '','') s = [p, q]"
      using length_two by blast
    have "isValidLonLatPair (QString s) \<longleftrightarrow>
            Number_isFinite (Number (trim p)) \<and> Number_isFinite (Number (trim q))
            \<and> \<not> (js_lt (Number (trim p)) (Fin (- 180)) \<or> js_lt (Fin 180) (Number (trim p))
                  \<or> js_lt (Number (trim q)) (Fin (- 90)) \<or> js_lt (Fin 90) (Number (trim q)))"
      using False by (auto simp: isValidLonLatPair_def pq Let_def)
    also have "\<dots> \<longleftrightarrow> (\<exists>x y. Number (trim p) = Fin x \<and> Number (trim q) = Fin y
                  \<and> - 180 \<le> x \<and> x \<le> 180 \<and> - 90 \<le> y \<and> y \<le> 90)"
      by (rule valid_numbers_iff)
    finally show ?thesis
      using False by (simp add: pq)
  qed
qed


text \<open>
  A longitude written just above 180 is 180 once it is a double, and is accepted.
\<close>

lemma Number_above_180: "Number ''180.00000000000000001'' = Fin 180"
proof -
  have "Number ''180.00000000000000001'' = toDouble 180.00000000000000001"
    by (simp add: num_defs)
  then show ?thesis by (simp only: toDouble_above_180)
qed

lemma above_180_valid: "isValidLonLatPair (QString ''180.00000000000000001,0'')"
proof -
  have n0: "Number ''0'' = Fin 0"
    by (simp add: num_defs toDouble_def)
  have "split_on (CHR '','') ''180.00000000000000001,0'' = [''180.00000000000000001'', ''0'']"
    by simp
  then have "map trim (split_on (CHR '','') ''180.00000000000000001,0'')
               = [''180.00000000000000001'', ''0'']"
    by (simp add: trim_def is_ws_def)
  then show ?thesis
    unfolding isValidLonLatPair_iff using Number_above_180 n0 by simp
qed

lemma route_handler_no_credential:
  assumes "ORS_API_KEY e = None \<or> ORS_API_KEY e = Some []"
  shows "route_handler e ev start end g
     = (\<lparr>statusCode = 500, body = ErrorBody ''ORS_API_KEY not configured on server.''\<rparr>, [], g)"
  using assms by (auto simp: route_handler_def)

lemma route_handler_required:
  assumes "ORS_API_KEY e = Some k" "k \<noteq> []" "not_q start \<or> not_q end"
  shows "route_handler e ev start end g
     = (\<lparr>statusCode = 400,
         body = ErrorBody ''start and end required as query params in \"lon,lat\" format''\<rparr>, [], g)"
  using assms by (simp add: route_handler_def)

lemma route_handler_invalid:
  assumes "ORS_API_KEY e = Some k" "k \<noteq> []" "\<not> isValidLonLatPair start \<or> \<not> isValidLonLatPair end"
  shows "statusCode (fst (route_handler e ev start end g)) = 400
     \<and> (\<exists>msg. body (fst (route_handler e ev start end g)) = ErrorBody msg)
     \<and> snd (route_handler e ev start end g) = ([], g)"
  using assms by (auto simp: route_handler_def)

lemma handle_route_admitted:
  assumes "req ev = GetRoute start end" "fst (routeLimiter (clock ev) (client ev) (hits g))"
  shows "handle e ev g
     = route_handler e ev start end (g\<lparr>hits := snd (routeLimiter (clock ev) (client ev) (hits g))\<rparr>)"
  using assms by (simp add: handle_def case_prod_unfold Let_def)

lemma isValidLonLatPair_rejects:
  shows "length (split_on (CHR '','') s) \<noteq> 2 \<longrightarrow> \<not> isValidLonLatPair (QString s)"
    and "split_on (CHR '','') s = [a, b] \<and> (\<forall>x. Number (trim a) \<noteq> Fin x \<or> (\<forall>y. Number (trim b) \<noteq> Fin y))
           \<longrightarrow> \<not> isValidLonLatPair (QString s)"
    and "split_on (CHR '','') s = [a, b] \<and> Number (trim a) = Fin x \<and> Number (trim b) = Fin y
           \<and> (x < - 180 \<or> 180 < x \<or> y < - 90 \<or> 90 < y)
           \<longrightarrow> \<not> isValidLonLatPair (QString s)"
proof -
  show "length (split_on (CHR '','') s) \<noteq> 2 \<longrightarrow> \<not> isValidLonLatPair (QString s)"
    by (simp add: isValidLonLatPair_def)
  show "split_on (CHR '','') s = [a, b] \<and> (\<forall>x. Number (trim a) \<noteq> Fin x \<or> (\<forall>y. Number (trim b) \<noteq> Fin y))
           \<longrightarrow> \<not> isValidLonLatPair (QString s)"
    unfolding isValidLonLatPair_iff by auto
  show "split_on (CHR '','') s = [a, b] \<and> Number (trim a) = Fin x \<and> Number (trim b) = Fin y
           \<and> (x < - 180 \<or> 180 < x \<or> y < - 90 \<or> 90 < y)
           \<longrightarrow> \<not> isValidLonLatPair (QString s)"
    unfolding isValidLonLatPair_iff by auto
qed

text \<open>
  C4, amended. With a credential configured, the route handler answers 400 with the
  message \<^verbatim>\<open>start and end required ...\<close> when \<^verbatim>\<open>start\<close> or \<^verbatim>\<open>end\<close> is missing or
  empty, and 400 with a validation message when the validator rejects either; in both
  cases the provider is not called and the state is unchanged. Without a credential
  it answers 500 whatever \<^verbatim>\<open>start\<close> and \<^verbatim>\<open>end\<close> are, again without a call of the
  provider. A request the rate limiter admits reaches this handler. The validator
  rejects a parameter that is not a string, a string that has not exactly two
  components between commas, a component that \<open>Number\<close> does not turn into a finite
  number, and a longitude outside \<open>[-180, 180]\<close> or a latitude outside \<open>[-90, 90]\<close>,
  the longitude and the latitude being the doubles that \<open>Number\<close> returns.
\<close>

theorem route_validation_400:
  "(ORS_API_KEY e = Some k \<and> k \<noteq> [] \<longrightarrow>
      (not_q start \<or> not_q end \<longrightarrow>
         route_handler e ev start end g
           = (\<lparr>statusCode = 400,
               body = ErrorBody ''start and end required as query params in \"lon,lat\" format''\<rparr>, [], g))
      \<and> (\<not> isValidLonLatPair start \<or> \<not> isValidLonLatPair end \<longrightarrow>
           statusCode (fst (route_handler e ev start end g)) = 400
           \<and> (\<exists>msg. body (fst (route_handler e ev start end g)) = ErrorBody msg)
           \<and> snd (route_handler e ev start end g) = ([], g)))
   \<and> (ORS_API_KEY e = None \<or> ORS_API_KEY e = Some [] \<longrightarrow>
        route_handler e ev start end g
          = (\<lparr>statusCode = 500, body = ErrorBody ''ORS_API_KEY not configured on server.''\<rparr>, [], g))
   \<and> (req ev = GetRoute start end \<and> fst (routeLimiter (clock ev) (client ev) (hits g)) \<longrightarrow>
        handle e ev g
          = route_handler e ev start end
              (g\<lparr>hits := snd (routeLimiter (clock ev) (client ev) (hits g))\<rparr>))
   \<and> not_q QUndefined \<and> not_q (QString [])
   \<and> \<not> isValidLonLatPair QUndefined \<and> \<not> isValidLonLatPair QOther
   \<and> (length (split_on (CHR '','') s) \<noteq> 2 \<longrightarrow> \<not> isValidLonLatPair (QString s))
   \<and> (split_on (CHR '','') s = [a, b]
        \<and> (\<forall>x. Number (trim a) \<noteq> Fin x \<or> (\<forall>y. Number (trim b) \<noteq> Fin y))
        \<longrightarrow> \<not> isValidLonLatPair (QString s))
   \<and> (split_on (CHR '','') s = [a, b] \<and> Number (trim a) = Fin x \<and> Number (trim b) = Fin y
        \<and> (x < - 180 \<or> 180 < x \<or> y < - 90 \<or> 90 < y)
        \<longrightarrow> \<not> isValidLonLatPair (QString s))"
proof (intro impI conjI)
  show "route_handler e ev start end g
          = (\<lparr>statusCode = 400,
              body = ErrorBody ''start and end required as query params in \"lon,lat\" format''\<rparr>, [], g)"
    if "ORS_API_KEY e = Some k \<and> k \<noteq> []" and "not_q start \<or> not_q end"
    using that(1) [THEN conjunct1] that(1) [THEN conjunct2] that(2)
    by (rule route_handler_required)
  show "statusCode (fst (route_handler e ev start end g)) = 400"
    if "ORS_API_KEY e = Some k \<and> k \<noteq> []"
      and "\<not> isValidLonLatPair start \<or> \<not> isValidLonLatPair end"
    using route_handler_invalid [OF that(1) [THEN conjunct1] that(1) [THEN conjunct2] that(2)]
    by (rule conjunct1)
  show "\<exists>msg. body (fst (route_handler e ev start end g)) = ErrorBody msg"
    if "ORS_API_KEY e = Some k \<and> k \<noteq> []"
      and "\<not> isValidLonLatPair start \<or> \<not> isValidLonLatPair end"
    using route_handler_invalid [OF that(1) [THEN conjunct1] that(1) [THEN conjunct2] that(2)]
    by (rule conjunct2 [THEN conjunct1])
  show "snd (route_handler e ev start end g) = ([], g)"
    if "ORS_API_KEY e = Some k \<and> k \<noteq> []"
      and "\<not> isValidLonLatPair start \<or> \<not> isValidLonLatPair end"
    using route_handler_invalid [OF that(1) [THEN conjunct1] that(1) [THEN conjunct2] that(2)]
    by (rule conjunct2 [THEN conjunct2])
  show "route_handler e ev start end g
          = (\<lparr>statusCode = 500, body = ErrorBody ''ORS_API_KEY not configured on server.''\<rparr>, [], g)"
    if "ORS_API_KEY e = None \<or> ORS_API_KEY e = Some []"
    using that by (rule route_handler_no_credential)
  show "handle e ev g
            = route_handler e ev start end
                (g\<lparr>hits := snd (routeLimiter (clock ev) (client ev) (hits g))\<rparr>)"
    if "req ev = GetRoute start end \<and> fst (routeLimiter (clock ev) (client ev) (hits g))"
    using that by (intro handle_route_admitted) simp_all
  show "not_q QUndefined" by simp
  show "not_q (QString [])" by simp
  show "\<not> isValidLonLatPair QUndefined" by (simp add: isValidLonLatPair_def)
  show "\<not> isValidLonLatPair QOther" by (simp add: isValidLonLatPair_def)
  show "\<not> isValidLonLatPair (QString s)" if "length (split_on (CHR '','') s) \<noteq> 2"
    using that isValidLonLatPair_rejects(1) by (rule rev_mp)
  show "\<not> isValidLonLatPair (QString s)"
    if "split_on (CHR '','') s = [a, b]
          \<and> (\<forall>x. Number (trim a) \<noteq> Fin x \<or> (\<forall>y. Number (trim b) \<noteq> Fin y))"
    using that isValidLonLatPair_rejects(2) by (rule rev_mp)
  show "\<not> isValidLonLatPair (QString s)"
    if "split_on (CHR '','') s = [a, b] \<and> Number (trim a) = Fin x \<and> Number (trim b) = Fin y
          \<and> (x < - 180 \<or> 180 < x \<or> y < - 90 \<or> 90 < y)"
    using that isValidLonLatPair_rejects(3) by (rule rev_mp)
qed

text \<open>
  A request without \<^verbatim>\<open>start\<close> is answered 400 with a credential and 500 without one;
  the longitude 200, two words, and a single number are rejected by the validator.
\<close>

theorem route_validation_400_witness:
  "route_handler \<lparr>ORS_API_KEY = Some ''key'', NODE_ENV = None, ROUTE_CACHE_TTL_SECONDS_env = None\<rparr>
      \<lparr>client = ''10.0.0.1'', clock = 1762000000000,
        req = GetRoute QUndefined (QString ''77.5933,12.9721''),
        provider = (\<lambda>u. FetchOk (JObj [])), clock_done = 1762000000200\<rparr>
      QUndefined (QString ''77.5933,12.9721'') gateway_init
     = (\<lparr>statusCode = 400,
         body = ErrorBody ''start and end required as query params in \"lon,lat\" format''\<rparr>,
        [], gateway_init)
   \<and> route_handler \<lparr>ORS_API_KEY = None, NODE_ENV = None, ROUTE_CACHE_TTL_SECONDS_env = None\<rparr>
      \<lparr>client = ''10.0.0.1'', clock = 1762000000000,
        req = GetRoute QUndefined (QString ''77.5933,12.9721''),
        provider = (\<lambda>u. FetchOk (JObj [])), clock_done = 1762000000200\<rparr>
      QUndefined (QString ''77.5933,12.9721'') gateway_init
     = (\<lparr>statusCode = 500, body = ErrorBody ''ORS_API_KEY not configured on server.''\<rparr>,
        [], gateway_init)
   \<and> \<not> isValidLonLatPair (QString ''200,12'')
   \<and> \<not> isValidLonLatPair (QString ''north,east'')
   \<and> \<not> isValidLonLatPair (QString ''77.5933'')"
proof -
  let ?e = "\<lparr>ORS_API_KEY = Some ''key'', NODE_ENV = None, ROUTE_CACHE_TTL_SECONDS_env = None\<rparr>"
  let ?ne = "\<lparr>ORS_API_KEY = None, NODE_ENV = None, ROUTE_CACHE_TTL_SECONDS_env = None\<rparr>"
  let ?ev = "\<lparr>client = ''10.0.0.1'', clock = 1762000000000,
        req = GetRoute QUndefined (QString ''77.5933,12.9721''),
        provider = (\<lambda>u. FetchOk (JObj [])), clock_done = 1762000000200\<rparr>"
  have k: "ORS_API_KEY ?e = Some ''key'' \<and> ''key'' \<noteq> []" by simp
  note th = route_validation_400 [where e = ?e and k = "''key''" and ev = ?ev
      and start = QUndefined and ?end = "QString ''77.5933,12.9721''" and g = gateway_init]
  note thn = route_validation_400 [where e = ?ne and k = "''key''" and ev = ?ev
      and start = QUndefined and ?end = "QString ''77.5933,12.9721''" and g = gateway_init
      and s = "[]" and a = "[]" and b = "[]" and x = 0 and y = 0]
  have 1: "route_handler ?e ?ev QUndefined (QString ''77.5933,12.9721'') gateway_init
     = (\<lparr>statusCode = 400,
         body = ErrorBody ''start and end required as query params in \"lon,lat\" format''\<rparr>,
        [], gateway_init)"
    by (rule th [THEN conjunct1, THEN mp, OF k, THEN conjunct1, THEN mp]) simp
  have 0: "route_handler ?ne ?ev QUndefined (QString ''77.5933,12.9721'') gateway_init
     = (\<lparr>statusCode = 500, body = ErrorBody ''ORS_API_KEY not configured on server.''\<rparr>,
        [], gateway_init)"
    by (rule thn [THEN conjunct2, THEN conjunct1, THEN mp]) simp
  have n200: "toDouble 200 = Fin 200"
    by (rule toDouble_int [where n = 200]) simp_all
  have n12: "toDouble 12 = Fin 12"
    by (rule toDouble_int [where n = 12]) simp_all
  have 2: "\<not> isValidLonLatPair (QString ''200,12'')"
    by (rule th [where s = "''200,12''" and a = "''200''" and b = "''12''"
          and x = 200 and y = 12,
          THEN conjunct2, THEN conjunct2, THEN conjunct2, THEN conjunct2, THEN conjunct2,
          THEN conjunct2, THEN conjunct2, THEN conjunct2, THEN conjunct2, THEN mp])
       (simp add: num_defs n200 n12)
  have 3: "\<not> isValidLonLatPair (QString ''north,east'')"
    by (rule th [where s = "''north,east''" and a = "''north''" and b = "''east''",
          THEN conjunct2, THEN conjunct2, THEN conjunct2, THEN conjunct2, THEN conjunct2,
          THEN conjunct2, THEN conjunct2, THEN conjunct2, THEN conjunct1, THEN mp])
       (simp add: num_defs)
  have 4: "\<not> isValidLonLatPair (QString ''77.5933'')"
    by (rule th [where s = "''77.5933''",
          THEN conjunct2, THEN conjunct2, THEN conjunct2, THEN conjunct2, THEN conjunct2,
          THEN conjunct2, THEN conjunct2, THEN conjunct1, THEN mp])
       simp
  from 1 0 2 3 4 show ?thesis by (intro conjI)
qed

text \<open>
  A request with \<^verbatim>\<open>start=,\<close> and \<^verbatim>\<open>end=,\<close> is answered 200 after a call of the
  provider, and a request without \<^verbatim>\<open>start\<close> is answered 500 when no credential is
  configured.
\<close>

theorem route_validation_counterexample:
  "statusCode (fst (handle
       \<lparr>ORS_API_KEY = Some ''key'', NODE_ENV = None, ROUTE_CACHE_TTL_SECONDS_env = None\<rparr>
       \<lparr>client = ''10.0.0.1'', clock = 1762000000000, req = GetRoute (QString '','') (QString '',''),
         provider = (\<lambda>u. FetchOk (JObj [])), clock_done = 1762000000200\<rparr>
       gateway_init)) = 200
   \<and> fst (snd (handle
       \<lparr>ORS_API_KEY = Some ''key'', NODE_ENV = None, ROUTE_CACHE_TTL_SECONDS_env = None\<rparr>
       \<lparr>client = ''10.0.0.1'', clock = 1762000000000, req = GetRoute (QString '','') (QString '',''),
         provider = (\<lambda>u. FetchOk (JObj [])), clock_done = 1762000000200\<rparr>
       gateway_init)) = [''https://api.openrouteservice.org/v2/directions/foot-walking?start=%2C&end=%2C'']
   \<and> statusCode (fst (handle
       \<lparr>ORS_API_KEY = None, NODE_ENV = None, ROUTE_CACHE_TTL_SECONDS_env = None\<rparr>
       \<lparr>client = ''10.0.0.1'', clock = 1762000000000,
         req = GetRoute QUndefined (QString ''77.5933,12.9721''),
         provider = (\<lambda>u. FetchOk (JObj [])), clock_done = 1762000000200\<rparr>
       gateway_init)) = 500"
proof -
  have v: "isValidLonLatPair (QString '','')"
    using blank_pair_valid [of "[]" "[]"] by simp
  show ?thesis
    by (simp add: handle_def routeLimiter_def gateway_init_def max_requests_def
        route_handler_def v NodeCache_get_def cacheKey_def provider_url_def
        encodeURIComponent_def unreserved_def percent_def)
qed

section \<open>The route cache\<close>







lemma ttl_underflow:
  "ROUTE_CACHE_TTL_SECONDS
     \<lparr>ORS_API_KEY = None, NODE_ENV = None, ROUTE_CACHE_TTL_SECONDS_env = Some ''1e-400''\<rparr> = Fin 30"
proof -
  have "Number ''1e-400'' = toDouble (1 / 10 ^ 400)"
    by (simp add: num_defs)
  then have "Number ''1e-400'' = Fin 0"
    by (simp only: toDouble_underflow)
  then show ?thesis
    by (simp add: ROUTE_CACHE_TTL_SECONDS_def)
qed





















section \<open>The rate limiter\<close>

lemma serve_append:
  "snd (serve e g (xs @ ys)) = snd (serve e (snd (serve e g xs)) ys)"
  by (induction xs arbitrary: g) (simp_all add: serve_Cons)

lemma serve_nth:
  "i < length evs \<Longrightarrow>
     fst (serve e g evs) ! i
       = (fst (handle e (evs ! i) (snd (serve e g (take i evs)))),
          fst (snd (handle e (evs ! i) (snd (serve e g (take i evs))))))"
proof (induction evs arbitrary: g i)
  case Nil
  then show ?case by simp
next
  case (Cons ev evs)
  show ?case
  proof (cases i)
    case 0
    then show ?thesis by (simp add: serve_Cons)
  next
    case (Suc k)
    with Cons.prems have "k < length evs" by simp
    from Cons.IH [OF this] show ?thesis
      using Suc by (simp add: serve_Cons)
  qed
qed

lemma route_handler_hits: "hits (snd (snd (route_handler e ev start end g))) = hits g"
  by (auto simp: route_handler_def Let_def case_prod_unfold
      split: qval.splits fetch_result.splits)

lemma route_handler_body: "body (fst (route_handler e ev start end g)) \<noteq> TooManyRequests"
  by (auto simp: route_handler_def Let_def case_prod_unfold
      split: qval.splits fetch_result.splits)

lemma handle_hits_route:
  assumes "is_route (req ev)"
  shows "hits (snd (snd (handle e ev g)))
     = (hits g)(client ev := clock ev # filter (\<lambda>u. clock ev - u < windowMs) (hits g (client ev)))"
proof -
  from assms obtain s d where r: "req ev = GetRoute s d"
    by (cases "req ev") auto
  show ?thesis
    by (simp add: handle_def r routeLimiter_def Let_def route_handler_hits)
qed

lemma handle_hits_other:
  assumes "\<not> is_route (req ev)"
  shows "hits (snd (snd (handle e ev g))) = hits g"
  using assms
  by (cases "req ev")
    (auto simp: handle_def post_shelters_handler_def Let_def case_prod_unfold)

lemma handle_hits_unmatched:
  assumes "\<not> (client ev = c \<and> is_route (req ev))"
  shows "hits (snd (snd (handle e ev g))) c = hits g c"
proof (cases "is_route (req ev)")
  case True
  with assms have "client ev \<noteq> c" by simp
  then show ?thesis by (simp add: handle_hits_route [OF True])
next
  case False
  then show ?thesis by (simp add: handle_hits_other)
qed

lemma handle_rejected:
  assumes "req ev = GetRoute s d" "\<not> fst (routeLimiter (clock ev) (client ev) (hits g))"
  shows "handle e ev g
     = (\<lparr>statusCode = 429, body = TooManyRequests\<rparr>, [],
        g\<lparr>hits := snd (routeLimiter (clock ev) (client ev) (hits g))\<rparr>)"
  using assms by (simp add: handle_def case_prod_unfold Let_def)

lemma hits_after:
  assumes old: "\<forall>u\<in>set (hits g c). \<forall>ev\<in>set evs. client ev = c \<and> is_route (req ev) \<longrightarrow> windowMs \<le> clock ev - u"
    and win: "\<forall>i j. i < j \<and> j < length evs
                \<and> (client (evs ! i) = c \<and> is_route (req (evs ! i)))
                \<and> (client (evs ! j) = c \<and> is_route (req (evs ! j)))
                \<longrightarrow> clock (evs ! j) - clock (evs ! i) < windowMs"
  shows "hits (snd (serve e g evs)) c
     = (if filter (\<lambda>ev. client ev = c \<and> is_route (req ev)) evs = [] then hits g c
        else rev (map clock (filter (\<lambda>ev. client ev = c \<and> is_route (req ev)) evs)))"
  using old win
proof (induction evs rule: rev_induct)
  case Nil
  then show ?case by simp
next
  case (snoc ev evs)
  let ?m = "\<lambda>ev. client ev = c \<and> is_route (req ev)"
  let ?g = "snd (serve e g evs)"
  have old': "\<forall>u\<in>set (hits g c). \<forall>ev\<in>set evs. ?m ev \<longrightarrow> windowMs \<le> clock ev - u"
    using snoc.prems(1) by simp
  have win': "\<forall>i j. i < j \<and> j < length evs \<and> ?m (evs ! i) \<and> ?m (evs ! j)
                \<longrightarrow> clock (evs ! j) - clock (evs ! i) < windowMs"
  proof (intro allI impI)
    fix i j
    assume a: "i < j \<and> j < length evs \<and> ?m (evs ! i) \<and> ?m (evs ! j)"
    then have "i < j \<and> j < length (evs @ [ev]) \<and> ?m ((evs @ [ev]) ! i) \<and> ?m ((evs @ [ev]) ! j)"
      by (simp add: nth_append)
    with snoc.prems(2) have "clock ((evs @ [ev]) ! j) - clock ((evs @ [ev]) ! i) < windowMs"
      by blast
    with a show "clock (evs ! j) - clock (evs ! i) < windowMs"
      by (simp add: nth_append)
  qed
  note IH = snoc.IH [OF old' win']
  have step: "snd (serve e g (evs @ [ev])) = snd (snd (handle e ev ?g))"
    by (simp add: serve_append serve_Cons)
  show ?case
  proof (cases "?m ev")
    case False
    then have "hits (snd (snd (handle e ev ?g))) c = hits ?g c"
      by (rule handle_hits_unmatched)
    then have "hits (snd (serve e g (evs @ [ev]))) c = hits ?g c"
      by (simp only: step)
    moreover have "filter ?m (evs @ [ev]) = filter ?m evs"
      using False by simp
    ultimately show ?thesis
      using IH by (simp only:)
  next
    case True
    then have r: "is_route (req ev)" and cl: "client ev = c" by simp_all
    have h: "hits (snd (snd (handle e ev ?g))) c
               = clock ev # filter (\<lambda>u. clock ev - u < windowMs) (hits ?g c)"
      by (simp add: handle_hits_route [OF r] cl)
    have keep: "filter (\<lambda>u. clock ev - u < windowMs) (hits ?g c)
                  = rev (map clock (filter ?m evs))"
    proof (cases "filter ?m evs = []")
      case e: True
      have "\<forall>u\<in>set (hits g c). \<not> clock ev - u < windowMs"
        using snoc.prems(1) True by auto
      then have "filter (\<lambda>u. clock ev - u < windowMs) (hits g c) = []"
        by (simp add: filter_empty_conv)
      with e IH show ?thesis by simp
    next
      case ne: False
      have "\<forall>u\<in>set (rev (map clock (filter ?m evs))). clock ev - u < windowMs"
      proof
        fix u
        assume "u \<in> set (rev (map clock (filter ?m evs)))"
        then obtain x where x: "x \<in> set evs" "?m x" "u = clock x" by auto
        then obtain i where i: "i < length evs" "evs ! i = x"
          by (auto simp: in_set_conv_nth)
        have "i < length evs \<and> length evs < length (evs @ [ev])
              \<and> ?m ((evs @ [ev]) ! i) \<and> ?m ((evs @ [ev]) ! length evs)"
          using i x True by (simp add: nth_append)
        with snoc.prems(2) have "clock ((evs @ [ev]) ! length evs) - clock ((evs @ [ev]) ! i) < windowMs"
          by blast
        then show "clock ev - u < windowMs"
          using i x by (simp add: nth_append)
      qed
      then have "filter (\<lambda>u. clock ev - u < windowMs) (rev (map clock (filter ?m evs)))
                   = rev (map clock (filter ?m evs))"
        by (simp only: filter_id_conv)
      with ne IH show ?thesis by simp
    qed
    have "hits (snd (serve e g (evs @ [ev]))) c = clock ev # rev (map clock (filter ?m evs))"
      by (simp only: step h keep)
    moreover have "filter ?m (evs @ [ev]) = filter ?m evs @ [ev]"
      using True by simp
    ultimately show ?thesis
      by simp
  qed
qed

lemma limiter_count:
  assumes old: "\<forall>u\<in>set (hits g c). \<forall>ev\<in>set evs. client ev = c \<and> is_route (req ev) \<longrightarrow> windowMs \<le> clock ev - u"
    and win: "\<forall>i j. i < j \<and> j < length evs
                \<and> (client (evs ! i) = c \<and> is_route (req (evs ! i)))
                \<and> (client (evs ! j) = c \<and> is_route (req (evs ! j)))
                \<longrightarrow> clock (evs ! j) - clock (evs ! i) < windowMs"
    and i: "i < length evs" "client (evs ! i) = c" "is_route (req (evs ! i))"
  shows "length (filter (\<lambda>u. clock (evs ! i) - u < windowMs) (hits (snd (serve e g (take i evs))) c))
     = length (filter (\<lambda>ev. client ev = c \<and> is_route (req ev)) (take i evs))"
proof -
  let ?m = "\<lambda>ev. client ev = c \<and> is_route (req ev)"
  let ?pre = "take i evs"
  have old': "\<forall>u\<in>set (hits g c). \<forall>ev\<in>set ?pre. ?m ev \<longrightarrow> windowMs \<le> clock ev - u"
    using old by (meson in_set_takeD)
  have win': "\<forall>k j. k < j \<and> j < length ?pre \<and> ?m (?pre ! k) \<and> ?m (?pre ! j)
                \<longrightarrow> clock (?pre ! j) - clock (?pre ! k) < windowMs"
  proof (intro allI impI)
    fix k j
    assume a: "k < j \<and> j < length ?pre \<and> ?m (?pre ! k) \<and> ?m (?pre ! j)"
    then have "k < j \<and> j < length evs \<and> ?m (evs ! k) \<and> ?m (evs ! j)"
      by auto
    with win have "clock (evs ! j) - clock (evs ! k) < windowMs" by blast
    with a show "clock (?pre ! j) - clock (?pre ! k) < windowMs" by auto
  qed
  note H = hits_after [of g c ?pre e, OF old' win']
  show ?thesis
  proof (cases "filter ?m ?pre = []")
    case True
    have "\<forall>u\<in>set (hits g c). \<not> clock (evs ! i) - u < windowMs"
      using old i by (auto simp: not_less dest: nth_mem)
    then have "filter (\<lambda>u. clock (evs ! i) - u < windowMs) (hits g c) = []"
      by (simp add: filter_empty_conv)
    with True H show ?thesis by simp
  next
    case False
    have "\<forall>u\<in>set (rev (map clock (filter ?m ?pre))). clock (evs ! i) - u < windowMs"
    proof
      fix u
      assume "u \<in> set (rev (map clock (filter ?m ?pre)))"
      then obtain x where x: "x \<in> set ?pre" "?m x" "u = clock x" by auto
      then obtain k where k: "k < length ?pre" "?pre ! k = x"
        by (auto simp: in_set_conv_nth)
      then have "k < i \<and> i < length evs \<and> ?m (evs ! k) \<and> ?m (evs ! i)"
        using i x by auto
      with win have "clock (evs ! i) - clock (evs ! k) < windowMs" by blast
      then show "clock (evs ! i) - u < windowMs"
        using k x by auto
    qed
    then have "filter (\<lambda>u. clock (evs ! i) - u < windowMs) (rev (map clock (filter ?m ?pre)))
                 = rev (map clock (filter ?m ?pre))"
      by (simp only: filter_id_conv)
    with False H show ?thesis by simp
  qed
qed

lemma handle_route_response:
  assumes "is_route (req ev)"
  shows "(length (filter (\<lambda>u. clock ev - u < windowMs) (hits g (client ev))) < max_requests
            \<longrightarrow> body (fst (handle e ev g)) \<noteq> TooManyRequests)
       \<and> (max_requests \<le> length (filter (\<lambda>u. clock ev - u < windowMs) (hits g (client ev)))
            \<longrightarrow> (fst (handle e ev g), fst (snd (handle e ev g)))
                 = (\<lparr>statusCode = 429, body = TooManyRequests\<rparr>, []))"
proof -
  from assms obtain s d where r: "req ev = GetRoute s d"
    by (cases "req ev") auto
  show ?thesis
    by (simp add: handle_def r routeLimiter_def Let_def route_handler_body)
qed

text \<open>
  C5. Take the route requests of one client address \<open>c\<close> in a session, all of them
  within one window of each other, every earlier request of \<open>c\<close> having left the
  window. A route request of \<open>c\<close> that fewer than 60 route requests of \<open>c\<close> precede
  is not rejected by the limiter; one that 60 or more precede is answered 429 with the
  rate-limit error, and the provider is not called. The window is 15 minutes and the
  ceiling 60. A rejected request never reaches the route handler: its answer does not
  depend on the cache, which it leaves as it was.
\<close>

theorem rate_limit_ceiling:
  "(\<forall>u\<in>set (hits g c). \<forall>ev\<in>set evs. client ev = c \<and> is_route (req ev) \<longrightarrow> windowMs \<le> clock ev - u)
   \<and> (\<forall>i j. i < j \<and> j < length evs
          \<and> (client (evs ! i) = c \<and> is_route (req (evs ! i)))
          \<and> (client (evs ! j) = c \<and> is_route (req (evs ! j)))
          \<longrightarrow> clock (evs ! j) - clock (evs ! i) < windowMs)
   \<longrightarrow>
     (\<forall>i. i < length evs \<and> client (evs ! i) = c \<and> is_route (req (evs ! i)) \<longrightarrow>
        (length (filter (\<lambda>ev. client ev = c \<and> is_route (req ev)) (take i evs)) < 60
           \<longrightarrow> body (fst (fst (serve e g evs) ! i)) \<noteq> TooManyRequests)
        \<and> (60 \<le> length (filter (\<lambda>ev. client ev = c \<and> is_route (req ev)) (take i evs))
           \<longrightarrow> fst (serve e g evs) ! i = (\<lparr>statusCode = 429, body = TooManyRequests\<rparr>, [])))
     \<and> windowMs = 900000 \<and> max_requests = 60
     \<and> (req ev = GetRoute s d \<and> \<not> fst (routeLimiter (clock ev) (client ev) (hits g)) \<longrightarrow>
          handle e ev g
            = (\<lparr>statusCode = 429, body = TooManyRequests\<rparr>, [],
               g\<lparr>hits := snd (routeLimiter (clock ev) (client ev) (hits g))\<rparr>))"
proof (intro impI conjI allI)
  assume a: "(\<forall>u\<in>set (hits g c). \<forall>ev\<in>set evs. client ev = c \<and> is_route (req ev) \<longrightarrow> windowMs \<le> clock ev - u)
   \<and> (\<forall>i j. i < j \<and> j < length evs
          \<and> (client (evs ! i) = c \<and> is_route (req (evs ! i)))
          \<and> (client (evs ! j) = c \<and> is_route (req (evs ! j)))
          \<longrightarrow> clock (evs ! j) - clock (evs ! i) < windowMs)"
  show "windowMs = 900000" by (simp add: windowMs_def)
  show "max_requests = 60" by (simp add: max_requests_def)
  show "handle e ev g
            = (\<lparr>statusCode = 429, body = TooManyRequests\<rparr>, [],
               g\<lparr>hits := snd (routeLimiter (clock ev) (client ev) (hits g))\<rparr>)"
    if "req ev = GetRoute s d \<and> \<not> fst (routeLimiter (clock ev) (client ev) (hits g))"
    using that by (intro handle_rejected) simp_all
  fix i
  assume i: "i < length evs \<and> client (evs ! i) = c \<and> is_route (req (evs ! i))"
  let ?g = "snd (serve e g (take i evs))"
  have n: "length (filter (\<lambda>u. clock (evs ! i) - u < windowMs) (hits ?g (client (evs ! i))))
     = length (filter (\<lambda>ev. client ev = c \<and> is_route (req ev)) (take i evs))"
    using limiter_count [of g c evs i e] a i by simp
  have nth: "fst (serve e g evs) ! i
       = (fst (handle e (evs ! i) ?g), fst (snd (handle e (evs ! i) ?g)))"
    using i by (intro serve_nth) simp
  have r: "is_route (req (evs ! i))" using i by simp
  note h = handle_route_response [OF r, of ?g e, unfolded n max_requests_def]
  show "body (fst (fst (serve e g evs) ! i)) \<noteq> TooManyRequests"
    if "length (filter (\<lambda>ev. client ev = c \<and> is_route (req ev)) (take i evs)) < 60"
    using h that by (simp add: nth)
  show "fst (serve e g evs) ! i = (\<lparr>statusCode = 429, body = TooManyRequests\<rparr>, [])"
    if "60 \<le> length (filter (\<lambda>ev. client ev = c \<and> is_route (req ev)) (take i evs))"
    using h that by (simp add: nth)
qed

text \<open>
  Of 61 identical route requests of one client, the 60th is not rejected and the 61st
  is, although its pair is in the cache.
\<close>

theorem rate_limit_ceiling_witness:
  "body (fst (fst (serve
       \<lparr>ORS_API_KEY = Some ''key'', NODE_ENV = None, ROUTE_CACHE_TTL_SECONDS_env = None\<rparr>
       gateway_init
       (replicate 61
          \<lparr>client = ''10.0.0.1'', clock = 1762000000000,
            req = GetRoute (QString ''77.5940,12.9730'') (QString ''77.5933,12.9721''),
            provider = (\<lambda>u. FetchOk (JObj [])), clock_done = 1762000000200\<rparr>)) ! 59))
     \<noteq> TooManyRequests
   \<and> fst (serve
       \<lparr>ORS_API_KEY = Some ''key'', NODE_ENV = None, ROUTE_CACHE_TTL_SECONDS_env = None\<rparr>
       gateway_init
       (replicate 61
          \<lparr>client = ''10.0.0.1'', clock = 1762000000000,
            req = GetRoute (QString ''77.5940,12.9730'') (QString ''77.5933,12.9721''),
            provider = (\<lambda>u. FetchOk (JObj [])), clock_done = 1762000000200\<rparr>)) ! 60
     = (\<lparr>statusCode = 429, body = TooManyRequests\<rparr>, [])"
proof -
  let ?e = "\<lparr>ORS_API_KEY = Some ''key'', NODE_ENV = None, ROUTE_CACHE_TTL_SECONDS_env = None\<rparr>"
  let ?ev = "\<lparr>client = ''10.0.0.1'', clock = 1762000000000,
            req = GetRoute (QString ''77.5940,12.9730'') (QString ''77.5933,12.9721''),
            provider = (\<lambda>u. FetchOk (JObj [])), clock_done = 1762000000200\<rparr>"
  let ?evs = "replicate 61 ?ev"
  let ?c = "''10.0.0.1''"
  have hyp: "(\<forall>u\<in>set (hits gateway_init ?c). \<forall>ev\<in>set ?evs.
                client ev = ?c \<and> is_route (req ev) \<longrightarrow> windowMs \<le> clock ev - u)
   \<and> (\<forall>i j. i < j \<and> j < length ?evs
          \<and> (client (?evs ! i) = ?c \<and> is_route (req (?evs ! i)))
          \<and> (client (?evs ! j) = ?c \<and> is_route (req (?evs ! j)))
          \<longrightarrow> clock (?evs ! j) - clock (?evs ! i) < windowMs)"
    by (auto simp: gateway_init_def windowMs_def)
  note th = rate_limit_ceiling [where g = gateway_init and c = ?c and evs = ?evs and e = ?e,
      THEN mp, OF hyp, THEN conjunct1]
  have c59: "length (filter (\<lambda>ev. client ev = ?c \<and> is_route (req ev)) (take 59 ?evs)) < 60"
    by simp
  have c60: "60 \<le> length (filter (\<lambda>ev. client ev = ?c \<and> is_route (req ev)) (take 60 ?evs))"
    by simp
  have i59: "59 < length ?evs \<and> client (?evs ! 59) = ?c \<and> is_route (req (?evs ! 59))"
    by simp
  have i60: "60 < length ?evs \<and> client (?evs ! 60) = ?c \<and> is_route (req (?evs ! 60))"
    by simp
  from th [THEN spec, THEN mp, OF i59, THEN conjunct1, THEN mp, OF c59]
       th [THEN spec, THEN mp, OF i60, THEN conjunct2, THEN mp, OF c60]
  show ?thesis by (intro conjI)
qed

end
